theory Spec2Isabelle
  imports Main "HOL-Library.Signed_Division"
begin

section \<open>The rbdqemu provider: remote execution, probers and resource controllers\<close>

text \<open>
  A shallow embedding of \<^verbatim>\<open>terraform-provider-rbdqemu.go\<close>. Go strings are byte
  sequences and are modelled as \<^typ>\<open>string\<close>; Go's \<^verbatim>\<open>int\<close> is the 64-bit integer of
  the amd64 build and is modelled as \<^typ>\<open>int\<close>: the program only compares such values
  and divides one non-negative value by 1024, and the one place that produces them from
  text (\<^verbatim>\<open>strconv.Atoi\<close>) clamps to the 64-bit range, which is written out below.
  An \<^verbatim>\<open>error\<close> is modelled by its message, \<^verbatim>\<open>nil\<close> by \<open>None\<close>. Writing to
  the log file (\<^verbatim>\<open>f_log\<close>) never influences a result and is left out.
\<close>

type_synonym error = string

text \<open>A run-time panic (an index out of range) ends the call without a return value.\<close>

datatype 'a go = Panic string | Return 'a

subsection \<open>Go standard library functions used by the provider\<close>

text \<open>
  \<^verbatim>\<open>strings.Split(s, "\n")\<close>: the pieces of \<open>s\<close> between newline bytes; the empty
  string gives one empty piece.
\<close>

fun Split_nl :: "string \<Rightarrow> string list" where
  "Split_nl [] = [[]]"
| "Split_nl (c # cs) =
     (if c = CHR 0x0A then [] # Split_nl cs
      else (case Split_nl cs of [] \<Rightarrow> [[c]] | f # fs \<Rightarrow> (c # f) # fs))"

text \<open>
  \<^verbatim>\<open>regexp.MustCompile("[ \t]+").Split(s, -1)\<close>: the pieces of \<open>s\<close> between maximal
  runs of spaces and tabs. A run at the start or at the end of \<open>s\<close> leaves an empty piece
  there, and the empty string gives one empty piece.
\<close>

definition is_blank :: "char \<Rightarrow> bool" where
  "is_blank c \<longleftrightarrow> c = CHR '' '' \<or> c = CHR 0x09"

fun Split_blanks :: "string \<Rightarrow> string list" where
  "Split_blanks [] = [[]]"
| "Split_blanks (c # cs) =
     (if is_blank c then
        (case cs of
           [] \<Rightarrow> [] # Split_blanks cs
         | c' # _ \<Rightarrow> if is_blank c' then Split_blanks cs else [] # Split_blanks cs)
      else (case Split_blanks cs of [] \<Rightarrow> [[c]] | f # fs \<Rightarrow> (c # f) # fs))"

text \<open>
  \<^verbatim>\<open>strings.Fields(s)\<close>: the maximal runs of non-space runes of \<open>s\<close>, where a space is
  a rune of Unicode's White_Space property. Go decodes \<open>s\<close> as UTF-8, an invalid byte being
  a one-byte non-space rune. Every white-space rune starts with an ASCII byte or a UTF-8 lead
  byte, and the bytes following the lead byte of a valid rune are continuation bytes
  (\<open>0x80\<close> to \<open>0xBF\<close>), so a white-space rune is recognised by its bytes wherever they
  begin; \<open>space_len\<close> gives the number of bytes of the white-space rune at the head of its
  argument, and 0 when there is none.
\<close>

definition space_len :: "string \<Rightarrow> nat" where
  "space_len s =
     (case map of_char s of
        [] \<Rightarrow> 0
      | b0 # r \<Rightarrow>
          if (9::nat) \<le> b0 \<and> b0 \<le> 13 \<or> b0 = 32 then 1
          else if b0 = 0xC2 then
            (case r of b1 # _ \<Rightarrow> if b1 = 0x85 \<or> b1 = 0xA0 then 2 else 0 | _ \<Rightarrow> 0)
          else if b0 = 0xE1 then
            (case r of b1 # b2 # _ \<Rightarrow> if b1 = 0x9A \<and> b2 = 0x80 then 3 else 0 | _ \<Rightarrow> 0)
          else if b0 = 0xE2 then
            (case r of
               b1 # b2 # _ \<Rightarrow>
                 if b1 = 0x80 \<and> (0x80 \<le> b2 \<and> b2 \<le> 0x8A \<or> b2 = 0xA8 \<or> b2 = 0xA9 \<or> b2 = 0xAF)
                 then 3
                 else if b1 = 0x81 \<and> b2 = 0x9F then 3 else 0
             | _ \<Rightarrow> 0)
          else if b0 = 0xE3 then
            (case r of b1 # b2 # _ \<Rightarrow> if b1 = 0x80 \<and> b2 = 0x80 then 3 else 0 | _ \<Rightarrow> 0)
          else 0)"

text \<open>
  \<open>Fields_from k cur s\<close>: \<open>k\<close> bytes of a white-space rune are still to be skipped,
  \<open>cur\<close> is the field being collected (reversed).
\<close>

fun Fields_from :: "nat \<Rightarrow> string \<Rightarrow> string \<Rightarrow> string list" where
  "Fields_from k cur [] = (if cur = [] then [] else [rev cur])"
| "Fields_from k cur (c # cs) =
     (if k > 0 then Fields_from (k - 1) cur cs
      else if space_len (c # cs) > 0 then
        (if cur = [] then [] else [rev cur]) @ Fields_from (space_len (c # cs) - 1) [] cs
      else Fields_from 0 (c # cur) cs)"

definition Fields :: "string \<Rightarrow> string list" where
  "Fields s = Fields_from 0 [] s"

text \<open>
  \<^verbatim>\<open>strconv.Atoi(s)\<close> with its error discarded, as both call sites do
  (\<^verbatim>\<open>pid, _ := strconv.Atoi (...)\<close>). The value is that of
  \<^verbatim>\<open>ParseInt(s, 10, 0)\<close>: an optional sign and decimal digits; 0 on a syntax error;
  the nearest 64-bit bound when the digits leave the range, which \<^verbatim>\<open>ParseUint\<close>
  reports as soon as the accumulated value overflows, before looking at later bytes.
\<close>

datatype parsed = SyntaxError | RangeError | Value int

definition is_digit :: "char \<Rightarrow> bool" where
  "is_digit c \<longleftrightarrow> 48 \<le> (of_char c :: int) \<and> (of_char c :: int) \<le> 57"

fun ParseUint_from :: "int \<Rightarrow> string \<Rightarrow> parsed" where
  "ParseUint_from n [] = Value n"
| "ParseUint_from n (c # cs) =
     (if \<not> is_digit c then SyntaxError
      else if n \<ge> 1844674407370955162 then RangeError
      else if n * 10 + (of_char c - 48) > 18446744073709551615 then RangeError
      else ParseUint_from (n * 10 + (of_char c - 48)) cs)"

definition ParseUint :: "string \<Rightarrow> parsed" where
  "ParseUint s = (if s = [] then SyntaxError else ParseUint_from 0 s)"

definition Atoi :: "string \<Rightarrow> int" where
  "Atoi s =
     (case s of
        [] \<Rightarrow> 0
      | c # cs \<Rightarrow>
          let neg = (c = CHR ''-'');
              s' = (if c = CHR ''+'' \<or> c = CHR ''-'' then cs else s)
          in (case ParseUint s' of
                SyntaxError \<Rightarrow> 0
              | RangeError \<Rightarrow> if neg then - 9223372036854775808 else 9223372036854775807
              | Value un \<Rightarrow>
                  if \<not> neg \<and> un \<ge> 9223372036854775808 then 9223372036854775807
                  else if neg \<and> un > 9223372036854775808 then - 9223372036854775808
                  else if neg then - un else un))"

text \<open>The verb \<^verbatim>\<open>%d\<close> of \<^verbatim>\<open>fmt.Sprintf\<close>: an integer in decimal.\<close>

function decimal :: "int \<Rightarrow> string" where
  "decimal n =
     (if n < 10 then [char_of (48 + n)]
      else decimal (n div 10) @ [char_of (48 + n mod 10)])"
  by pat_completeness auto
termination
  by (relation "measure nat") auto

declare decimal.simps [simp del]

definition Sprint_d :: "int \<Rightarrow> string" where
  "Sprint_d i = (if i < 0 then CHR ''-'' # decimal (- i) else decimal i)"

subsection \<open>Configuration and the remote side\<close>

definition cfg_vmNamePrefix :: string where
  "cfg_vmNamePrefix = ''tf''"

definition cfg_qemu_img :: string where
  "cfg_qemu_img = ''/usr/local/packages/qemu-4.1.0/bin/qemu-img''"

text \<open>The four package-level variables that \<^verbatim>\<open>rbdConfig\<close> sets.\<close>

record config =
  G_ssh_private_key :: string
  G_ceph_rbduser :: string
  G_ceph_hosts :: "string list"
  G_qemu_hosts :: "string list"

text \<open>
  What one \<^verbatim>\<open>ssh\<close> child process does, as \<^verbatim>\<open>f_ssh\<close> observes it: the result of
  \<^verbatim>\<open>ssh.Start()\<close>, the lines that \<^verbatim>\<open>ReadLine\<close> returns on each pipe until its first
  read error, and the result of \<^verbatim>\<open>ssh.Wait()\<close> (non-nil when \<^verbatim>\<open>ssh\<close> exits non-zero,
  which it does when the connection fails or when the remote command exits non-zero).
  Creating the two pipes is taken to succeed (the code discards their errors), and the
  process is taken to end: \<^verbatim>\<open>f_ssh\<close> has no timeout.
\<close>

record proc =
  start_err :: "error option"
  out_lines :: "string list"
  err_lines :: "string list"
  wait_err :: "error option"

text \<open>
  The state threaded through every operation is the list of \<^verbatim>\<open>ssh\<close> invocations made so
  far, each by its argument vector, whether or not the process then started. The remote
  side is a function from that history, the current invocation last, to the behaviour of
  the process: it may answer the same command differently at different times.
\<close>

type_synonym calls = "string list list"
type_synonym remote = "calls \<Rightarrow> proc"

definition ssh_args :: "config \<Rightarrow> string \<Rightarrow> string \<Rightarrow> string list" where
  "ssh_args cfg host rcmd =
     [''-i'', G_ssh_private_key cfg,
      ''-o'', ''StrictHostKeyChecking=no'',
      ''-o'', ''BatchMode=yes'',
      ''root@'' @ host, rcmd]"

text \<open>The accumulation of the lines read from one pipe into \<^verbatim>\<open>out_buf\<close> or \<^verbatim>\<open>err_buf\<close>.\<close>

definition add_line :: "string \<Rightarrow> string \<Rightarrow> string" where
  "add_line buf line = (if length buf = 0 then line else buf @ [CHR 0x0A] @ line)"

definition read_lines :: "string list \<Rightarrow> string" where
  "read_lines ls = foldl add_line [] ls"

type_synonym ssh_result = "string \<times> string \<times> error option"

definition f_ssh :: "config \<Rightarrow> remote \<Rightarrow> string \<Rightarrow> string \<Rightarrow> calls \<Rightarrow> ssh_result \<times> calls" where
  "f_ssh cfg env host rcmd log =
     (let log' = log @ [ssh_args cfg host rcmd];
          ssh = env log'
      in if start_err ssh \<noteq> None then (([], [], None), log')
         else ((read_lines (out_lines ssh), read_lines (err_lines ssh), wait_err ssh), log'))"

subsection \<open>Inventory prober and hypervisor selector\<close>

definition f_rbdExists ::
  "config \<Rightarrow> remote \<Rightarrow> string \<Rightarrow> string \<Rightarrow> calls \<Rightarrow> (bool \<times> error option) go \<times> calls" where
  "f_rbdExists cfg env osd_pool img_name log =
     (let rbd_cmd = ''rbd ls -p '' @ osd_pool in
      case G_ceph_hosts cfg of
        [] \<Rightarrow> (Panic ''index out of range [0] with length 0'', log)
      | h0 # _ \<Rightarrow>
          (case f_ssh cfg env h0 rbd_cmd log of
             ((out_buf, err_buf, fault), log') \<Rightarrow>
               (case fault of
                  Some f \<Rightarrow> (Return (False, Some (''ssh fault - '' @ f)), log')
                | None \<Rightarrow>
                    if length err_buf > 0
                    then (Return (False, Some (''rbd fault - '' @ err_buf)), log')
                    else if list_ex (\<lambda>val. val = img_name) (Split_nl out_buf)
                    then (Return (True, None), log')
                    else (Return (False, None), log'))))"

definition meminfo_cmd :: string where
  "meminfo_cmd = ''grep MemAvailable /proc/meminfo''"

text \<open>
  The loop of \<^verbatim>\<open>f_getHypervisor\<close> over the remaining hosts, with the running
  \<^verbatim>\<open>max_avail\<close> and \<^verbatim>\<open>best_host\<close>. \<^verbatim>\<open>tokens[1]\<close> panics when the output has no
  blank-separated second token.
\<close>

fun getHypervisor_loop ::
  "config \<Rightarrow> remote \<Rightarrow> string list \<Rightarrow> int \<Rightarrow> string \<Rightarrow> calls \<Rightarrow> (int \<times> string) go \<times> calls" where
  "getHypervisor_loop cfg env [] max_avail best_host log = (Return (max_avail, best_host), log)"
| "getHypervisor_loop cfg env (v # vs) max_avail best_host log =
     (case f_ssh cfg env v meminfo_cmd log of
        ((out_buf, err_buf, fault), log') \<Rightarrow>
          if fault \<noteq> None \<or> length err_buf > 0
          then getHypervisor_loop cfg env vs max_avail best_host log'
          else
            let tokens = Split_blanks out_buf in
            if length tokens \<le> 1
            then (Panic ''index out of range [1] with length 1'', log')
            else
              let avail_kb = Atoi (tokens ! 1) in
              if avail_kb > max_avail
              then getHypervisor_loop cfg env vs avail_kb v log'
              else getHypervisor_loop cfg env vs max_avail best_host log')"

definition f_getHypervisor :: "config \<Rightarrow> remote \<Rightarrow> int \<Rightarrow> calls \<Rightarrow> string go \<times> calls" where
  "f_getHypervisor cfg env mem_mb log =
     (case getHypervisor_loop cfg env (G_qemu_hosts cfg) 0 [] log of
        (Panic p, log') \<Rightarrow> (Panic p, log')
      | (Return (max_avail, best_host), log') \<Rightarrow>
          if max_avail sdiv 1024 > mem_mb then (Return best_host, log')
          else (Return [], log'))"

subsection \<open>Resource data\<close>

text \<open>
  \<^verbatim>\<open>*schema.ResourceData\<close>: the attributes of the resource, typed by the schema, and
  the identifier that \<^verbatim>\<open>d.SetId\<close> writes. The empty identifier means that none is set.
\<close>

record resource_data =
  attr_string :: "string \<Rightarrow> string"
  attr_int :: "string \<Rightarrow> int"
  Id :: string

definition SetId :: "string \<Rightarrow> resource_data \<Rightarrow> resource_data" where
  "SetId v d = d\<lparr>Id := v\<rparr>"

subsection \<open>Storage volume controller\<close>

definition rbd_create_cmd :: "string \<Rightarrow> string \<Rightarrow> string \<Rightarrow> string" where
  "rbd_create_cmd osd_pool img_name img_size =
     ''rbd create --pool '' @ osd_pool @ '' --image '' @ img_name @ '' --size '' @ img_size
       @ '' && '' @ ''rbd feature disable '' @ osd_pool @ ''/'' @ img_name @ '' ''
       @ ''object-map fast-diff deep-flatten''"

definition qemu_img_create_cmd :: "config \<Rightarrow> string \<Rightarrow> string \<Rightarrow> string \<Rightarrow> string" where
  "qemu_img_create_cmd cfg osd_pool img_name img_size =
     cfg_qemu_img @ '' create -f rbd rbd:'' @ osd_pool @ ''/'' @ img_name
       @ '':id='' @ G_ceph_rbduser cfg @ '' '' @ img_size"

definition rsRbdCreate ::
  "config \<Rightarrow> remote \<Rightarrow> resource_data \<Rightarrow> calls \<Rightarrow> error option go \<times> resource_data \<times> calls" where
  "rsRbdCreate cfg env d log =
     (let osd_pool = attr_string d ''osd_pool'';
          img_name = attr_string d ''img_name'';
          img_size = attr_string d ''img_size'';
          rbd_cmd = rbd_create_cmd osd_pool img_name img_size
      in
      case G_ceph_hosts cfg of
        [] \<Rightarrow> (Panic ''index out of range [0] with length 0'', d, log)
      | h0 # _ \<Rightarrow>
          (case f_ssh cfg env h0 rbd_cmd log of
             ((_, err_buf, fault), log1) \<Rightarrow>
               if fault \<noteq> None then (Return fault, d, log1)
               else if length err_buf > 0 then (Return (Some err_buf), d, log1)
               else
                 let d1 = SetId (osd_pool @ ''/'' @ img_name) d in
                 (case f_getHypervisor cfg env 1 log1 of
                    (Panic p, log2) \<Rightarrow> (Panic p, d1, log2)
                  | (Return h, log2) \<Rightarrow>
                      if length h < 1 then (Return None, d1, log2)
                      else
                        (case f_ssh cfg env h (qemu_img_create_cmd cfg osd_pool img_name img_size) log2 of
                           ((_, err_buf2, fault2), log3) \<Rightarrow>
                             if fault2 \<noteq> None then (Return fault2, d1, log3)
                             else if length err_buf2 > 0 then (Return (Some err_buf2), d1, log3)
                             else (Return None, d1, log3)))))"

definition rsRbdRead ::
  "config \<Rightarrow> remote \<Rightarrow> resource_data \<Rightarrow> calls \<Rightarrow> error option go \<times> resource_data \<times> calls" where
  "rsRbdRead cfg env d log =
     (let osd_pool = attr_string d ''osd_pool'';
          img_name = attr_string d ''img_name''
      in
      case f_rbdExists cfg env osd_pool img_name log of
        (Panic p, log') \<Rightarrow> (Panic p, d, log')
      | (Return (result, fault), log') \<Rightarrow>
          if fault = None \<and> result = True
          then (Return None, SetId (osd_pool @ ''/'' @ img_name) d, log')
          else (Return None, d, log'))"

subsection \<open>Process prober and VM controller\<close>

definition vm_id :: "string \<Rightarrow> string" where
  "vm_id name = cfg_vmNamePrefix @ ''-'' @ name"

definition ps_cmd :: "string \<Rightarrow> string" where
  "ps_cmd ident =
     ''ps axwww -o '' @ [CHR 0x27] @ ''pid args'' @ [CHR 0x27] @ '' | grep -v grep | ''
       @ ''grep -w '' @ [CHR 0x27] @ ident @ [CHR 0x27] @ '' ; /bin/true''"

text \<open>The loop of \<^verbatim>\<open>f_vmExists\<close> over the remaining hosts.\<close>

fun vmExists_loop ::
  "config \<Rightarrow> remote \<Rightarrow> string \<Rightarrow> string list \<Rightarrow> calls \<Rightarrow> (string \<times> int \<times> error option) \<times> calls" where
  "vmExists_loop cfg env ident [] log = (([], 0, None), log)"
| "vmExists_loop cfg env ident (v # vs) log =
     (case f_ssh cfg env v (ps_cmd ident) log of
        ((stdout, stderr, fault), log') \<Rightarrow>
          if fault \<noteq> None then (([], 0, fault), log')
          else if length stderr > 0 then (([], 0, Some stderr), log')
          else
            let tokens = Fields stdout in
            if length tokens > 3 then
              let pid = Atoi (tokens ! 0) in
              if tokens ! 2 = ''-name'' \<and> tokens ! 3 = ident
              then ((v, pid, None), log')
              else vmExists_loop cfg env ident vs log'
            else vmExists_loop cfg env ident vs log')"

definition f_vmExists ::
  "config \<Rightarrow> remote \<Rightarrow> string \<Rightarrow> calls \<Rightarrow> (string \<times> int \<times> error option) \<times> calls" where
  "f_vmExists cfg env name log = vmExists_loop cfg env (vm_id name) (G_qemu_hosts cfg) log"

definition rsVmRead ::
  "config \<Rightarrow> remote \<Rightarrow> resource_data \<Rightarrow> calls \<Rightarrow> error option \<times> resource_data \<times> calls" where
  "rsVmRead cfg env d log =
     (let name = attr_string d ''name'' in
      case f_vmExists cfg env name log of
        ((hypervisor, _, fault), log') \<Rightarrow>
          if fault \<noteq> None \<and> length hypervisor > 0
          then (None, SetId (cfg_vmNamePrefix @ ''-'' @ name) d, log')
          else (None, d, log'))"

definition rsVmDelete ::
  "config \<Rightarrow> remote \<Rightarrow> resource_data \<Rightarrow> calls \<Rightarrow> error option \<times> calls" where
  "rsVmDelete cfg env d log =
     (let name = attr_string d ''name'' in
      case f_vmExists cfg env name log of
        ((hypervisor, pid, fault), log1) \<Rightarrow>
          if length hypervisor > 0 \<and> pid > 1 \<and> fault = None then
            (case f_ssh cfg env hypervisor (''kill '' @ Sprint_d pid) log1 of
               ((_, _, fault2), log2) \<Rightarrow>
                 if fault2 \<noteq> None
                 then (Some (''Failed to delete '' @ name @ '' pid:'' @ Sprint_d pid @ '' on ''
                               @ hypervisor @ '' - %!s(MISSING)''), log2)
                 else (None, log2))
          else (Some (''Could not locate VM and pid of '' @ name), log1))"

definition rsVmExists ::
  "config \<Rightarrow> remote \<Rightarrow> resource_data \<Rightarrow> calls \<Rightarrow> (bool \<times> error option) \<times> calls" where
  "rsVmExists cfg env d log =
     (let name = attr_string d ''name'' in
      case f_vmExists cfg env name log of
        ((hypervisor, _, fault), log') \<Rightarrow>
          if fault \<noteq> None then ((False, None), log')
          else if length hypervisor > 0 then ((True, None), log')
          else ((False, None), log'))"

subsection \<open>Notions used to state the properties\<close>

text \<open>
  The outcomes of issuing one command to each host of a list in order, starting from the
  history \<open>log\<close>: the sequence of per-host probe outcomes. A scan of these hosts that
  stops at a host meets the outcomes up to that host; it contacts no later host, whose
  outcome here is the one it would have had.
\<close>

fun ssh_seq :: "config \<Rightarrow> remote \<Rightarrow> string list \<Rightarrow> string \<Rightarrow> calls \<Rightarrow> ssh_result list" where
  "ssh_seq cfg env [] rcmd log = []"
| "ssh_seq cfg env (v # vs) rcmd log =
     (case f_ssh cfg env v rcmd log of (r, log') \<Rightarrow> r # ssh_seq cfg env vs rcmd log')"

definition calls_to :: "config \<Rightarrow> string list \<Rightarrow> string \<Rightarrow> calls" where
  "calls_to cfg hs rcmd = map (\<lambda>v. ssh_args cfg v rcmd) hs"

text \<open>A probe fails when it reports a transport fault or a non-empty standard error.\<close>

fun probe_failed :: "ssh_result \<Rightarrow> bool" where
  "probe_failed (out_buf, err_buf, fault) \<longleftrightarrow> fault \<noteq> None \<or> err_buf \<noteq> []"

text \<open>The error that a caller returning on a failed probe reports.\<close>

fun probe_error :: "ssh_result \<Rightarrow> error option" where
  "probe_error (out_buf, err_buf, fault) = (if fault \<noteq> None then fault else Some err_buf)"

text \<open>
  The output of a process-listing probe has the shape of the wanted VM's process:
  more than three tokens, \<^verbatim>\<open>-name\<close> at position 2, the derived id at position 3.
\<close>

fun vm_match :: "string \<Rightarrow> ssh_result \<Rightarrow> bool" where
  "vm_match ident (out_buf, err_buf, fault) \<longleftrightarrow>
     length (Fields out_buf) > 3 \<and> Fields out_buf ! 2 = ''-name'' \<and> Fields out_buf ! 3 = ident"

fun vm_pid :: "ssh_result \<Rightarrow> int" where
  "vm_pid (out_buf, err_buf, fault) = Atoi (Fields out_buf ! 0)"

text \<open>
  The available memory in kB that a memory probe reports: the second blank-separated
  token of its output, read as an integer; none when there is no second token.
\<close>

fun avail_kb :: "ssh_result \<Rightarrow> int option" where
  "avail_kb (out_buf, err_buf, fault) =
     (if length (Split_blanks out_buf) > 1 then Some (Atoi (Split_blanks out_buf ! 1)) else None)"

text \<open>
  Scripted remote sides for concrete runs: \<open>script ps\<close> answers the \<open>i\<close>-th invocation
  with the \<open>i\<close>-th process of \<open>ps\<close> (and with a failed start once the script is over);
  \<open>prints ls\<close> is a process that starts, prints the lines \<open>ls\<close> on standard output,
  nothing on standard error, and exits with status 0.
\<close>

definition prints :: "string list \<Rightarrow> proc" where
  "prints ls = \<lparr>start_err = None, out_lines = ls, err_lines = [], wait_err = None\<rparr>"

definition complains :: "string list \<Rightarrow> proc" where
  "complains ls = \<lparr>start_err = None, out_lines = [], err_lines = ls, wait_err = None\<rparr>"

definition exits_with :: "error \<Rightarrow> proc" where
  "exits_with e = \<lparr>start_err = None, out_lines = [], err_lines = [], wait_err = Some e\<rparr>"

definition fails_to_start :: "error \<Rightarrow> proc" where
  "fails_to_start e = \<lparr>start_err = Some e, out_lines = [], err_lines = [], wait_err = None\<rparr>"

definition script :: "proc list \<Rightarrow> remote" where
  "script ps log =
     (if 0 < length log \<and> length log \<le> length ps then ps ! (length log - 1)
      else fails_to_start ''script over'')"

definition cluster :: "string list \<Rightarrow> string list \<Rightarrow> config" where
  "cluster ceph qemu =
     \<lparr>G_ssh_private_key = ''/root/.ssh/id_ed25519'', G_ceph_rbduser = ''admin'',
      G_ceph_hosts = ceph, G_qemu_hosts = qemu\<rparr>"

definition vm_named :: "string \<Rightarrow> resource_data" where
  "vm_named name = \<lparr>attr_string = (\<lambda>k. if k = ''name'' then name else []), attr_int = (\<lambda>k. 0), Id = []\<rparr>"

definition image :: "string \<Rightarrow> string \<Rightarrow> string \<Rightarrow> resource_data" where
  "image pool name sz =
     \<lparr>attr_string = (\<lambda>k. if k = ''osd_pool'' then pool else if k = ''img_name'' then name
                          else if k = ''img_size'' then sz else []),
      attr_int = (\<lambda>k. 0), Id = []\<rparr>"

text \<open>
  The probe outcomes that a search for the VM \<open>name\<close>, and a scan for available
  memory, meet on the configured hypervisors when started at the history \<open>log\<close>.
\<close>

definition vm_probes :: "config \<Rightarrow> remote \<Rightarrow> string \<Rightarrow> calls \<Rightarrow> ssh_result list" where
  "vm_probes cfg env name log = ssh_seq cfg env (G_qemu_hosts cfg) (ps_cmd (vm_id name)) log"

definition mem_probes :: "config \<Rightarrow> remote \<Rightarrow> calls \<Rightarrow> ssh_result list" where
  "mem_probes cfg env log = ssh_seq cfg env (G_qemu_hosts cfg) meminfo_cmd log"

section \<open>Properties\<close>

subsection \<open>Basic facts\<close>

lemma f_ssh_calls: "snd (f_ssh cfg env host rcmd log) = log @ [ssh_args cfg host rcmd]"
  by (simp add: f_ssh_def Let_def)

lemma f_ssh_result:
  obtains out_buf err_buf fault where
    "f_ssh cfg env host rcmd log = ((out_buf, err_buf, fault), log @ [ssh_args cfg host rcmd])"
  by (metis f_ssh_calls prod_cases3 surjective_pairing)

lemma length_ssh_seq [simp]: "length (ssh_seq cfg env hs rcmd log) = length hs"
  by (induction hs arbitrary: log) (auto split: prod.splits)

lemma calls_to_Nil [simp]: "calls_to cfg [] rcmd = []"
  by (simp add: calls_to_def)

lemma calls_to_Cons [simp]:
  "calls_to cfg (v # vs) rcmd = ssh_args cfg v rcmd # calls_to cfg vs rcmd"
  by (simp add: calls_to_def)

lemma probe_error_Some: "probe_failed r \<Longrightarrow> probe_error r \<noteq> None"
  by (cases r) auto

lemma all_from_map:
  assumes "map P xs = replicate (length xs) True"
  shows "\<forall>x \<in> set xs. P x"
proof
  fix x assume "x \<in> set xs"
  then have "P x \<in> set (map P xs)" by simp
  then show "P x" unfolding assms by simp
qed

subsection \<open>The search of the process prober\<close>

lemma ssh_seq_Cons:
  assumes "f_ssh cfg env v rcmd log = (r, log')"
  shows "ssh_seq cfg env (v # vs) rcmd log = r # ssh_seq cfg env vs rcmd log'"
  using assms by simp

text \<open>One step of the search, by the outcome of the probe of the host at hand.\<close>

lemma vmExists_loop_Cons:
  assumes "f_ssh cfg env v (ps_cmd ident) log = (r, log')"
  shows "vmExists_loop cfg env ident (v # vs) log =
     (if probe_failed r then (([], 0, probe_error r), log')
      else if vm_match ident r then ((v, vm_pid r, None), log')
      else vmExists_loop cfg env ident vs log')"
  using assms by (cases r) (auto simp: Let_def)

text \<open>
  The search ends in one of three ways: every host was probed and none failed or matched;
  or the probe of host \<open>j\<close> failed after \<open>j\<close> clean non-matches; or the probe of host
  \<open>j\<close> matched after \<open>j\<close> clean non-matches. In the last two cases exactly the hosts
  up to \<open>j\<close> have been contacted.
\<close>

lemma vmExists_loop_outcome:
  fixes cfg env ident hs log
  defines "rs \<equiv> ssh_seq cfg env hs (ps_cmd ident) log"
  shows
    "((\<forall>r \<in> set rs. \<not> probe_failed r \<and> \<not> vm_match ident r) \<and>
        vmExists_loop cfg env ident hs log = (([], 0, None), log @ calls_to cfg hs (ps_cmd ident)))
     \<or> (\<exists>j < length hs.
          (\<forall>r \<in> set (take j rs). \<not> probe_failed r \<and> \<not> vm_match ident r) \<and>
          probe_failed (rs ! j) \<and>
          vmExists_loop cfg env ident hs log =
            (([], 0, probe_error (rs ! j)), log @ calls_to cfg (take (Suc j) hs) (ps_cmd ident)))
     \<or> (\<exists>j < length hs.
          (\<forall>r \<in> set (take j rs). \<not> probe_failed r \<and> \<not> vm_match ident r) \<and>
          \<not> probe_failed (rs ! j) \<and> vm_match ident (rs ! j) \<and>
          vmExists_loop cfg env ident hs log =
            ((hs ! j, vm_pid (rs ! j), None), log @ calls_to cfg (take (Suc j) hs) (ps_cmd ident)))"
    (is "?none hs rs log \<or> ?fail hs rs log \<or> ?found hs rs log")
  unfolding rs_def
proof (induction hs arbitrary: log)
  case Nil
  then show ?case by simp
next
  case (Cons v vs)
  let ?log0 = "log @ [ssh_args cfg v (ps_cmd ident)]"
  obtain r where s: "f_ssh cfg env v (ps_cmd ident) log = (r, ?log0)"
    by (metis f_ssh_calls surjective_pairing)
  let ?rs' = "ssh_seq cfg env vs (ps_cmd ident) ?log0"
  note rs = ssh_seq_Cons[OF s, of vs]
  note step = vmExists_loop_Cons[OF s, of vs]
  show ?case
  proof (cases "probe_failed r \<or> vm_match ident r")
    case True
    then have "?fail (v # vs) (r # ?rs') log \<or> ?found (v # vs) (r # ?rs') log"
      using step by (cases "probe_failed r") auto
    then show ?thesis unfolding rs by blast
  next
    case False
    then have same: "vmExists_loop cfg env ident (v # vs) log = vmExists_loop cfg env ident vs ?log0"
      using step by simp
    from Cons.IH[of ?log0] consider
      (none) "?none vs ?rs' ?log0" | (fail) "?fail vs ?rs' ?log0" | (found) "?found vs ?rs' ?log0"
      by blast
    then show ?thesis
    proof cases
      case none
      with False same have "?none (v # vs) (r # ?rs') log" by simp
      then show ?thesis unfolding rs by blast
    next
      case fail
      then obtain j where "j < length vs"
        "\<forall>r \<in> set (take j ?rs'). \<not> probe_failed r \<and> \<not> vm_match ident r"
        "probe_failed (?rs' ! j)"
        "vmExists_loop cfg env ident vs ?log0 =
           (([], 0, probe_error (?rs' ! j)), ?log0 @ calls_to cfg (take (Suc j) vs) (ps_cmd ident))"
        by blast
      with False same have "?fail (v # vs) (r # ?rs') log"
        by (intro exI[of _ "Suc j"]) simp
      then show ?thesis unfolding rs by blast
    next
      case found
      then obtain j where "j < length vs"
        "\<forall>r \<in> set (take j ?rs'). \<not> probe_failed r \<and> \<not> vm_match ident r"
        "\<not> probe_failed (?rs' ! j)" "vm_match ident (?rs' ! j)"
        "vmExists_loop cfg env ident vs ?log0 =
           ((vs ! j, vm_pid (?rs' ! j), None), ?log0 @ calls_to cfg (take (Suc j) vs) (ps_cmd ident))"
        by blast
      with False same have "?found (v # vs) (r # ?rs') log"
        by (intro exI[of _ "Suc j"]) simp
      then show ?thesis unfolding rs by blast
    qed
  qed
qed

lemma f_vmExists_outcome:
  fixes cfg env name log
  defines "hs \<equiv> G_qemu_hosts cfg"
    and "rs \<equiv> vm_probes cfg env name log"
    and "c \<equiv> ps_cmd (vm_id name)"
  shows
    "((\<forall>r \<in> set rs. \<not> probe_failed r \<and> \<not> vm_match (vm_id name) r) \<and>
        f_vmExists cfg env name log = (([], 0, None), log @ calls_to cfg hs c))
     \<or> (\<exists>j < length hs.
          (\<forall>r \<in> set (take j rs). \<not> probe_failed r \<and> \<not> vm_match (vm_id name) r) \<and>
          probe_failed (rs ! j) \<and>
          f_vmExists cfg env name log =
            (([], 0, probe_error (rs ! j)), log @ calls_to cfg (take (Suc j) hs) c))
     \<or> (\<exists>j < length hs.
          (\<forall>r \<in> set (take j rs). \<not> probe_failed r \<and> \<not> vm_match (vm_id name) r) \<and>
          \<not> probe_failed (rs ! j) \<and> vm_match (vm_id name) (rs ! j) \<and>
          f_vmExists cfg env name log =
            ((hs ! j, vm_pid (rs ! j), None), log @ calls_to cfg (take (Suc j) hs) c))"
  unfolding hs_def rs_def c_def vm_probes_def f_vmExists_def
  by (rule vmExists_loop_outcome)

lemma f_vmExists_error_host:
  assumes "f_vmExists cfg env name log = ((h, pid, Some e), log')"
  shows "h = [] \<and> pid = 0"
  using f_vmExists_outcome[of cfg env name log] assms by auto

lemma rsVmRead_never_sets_id: "fst (snd (rsVmRead cfg env d log)) = d"
proof -
  obtain h pid err log' where
    s: "f_vmExists cfg env (attr_string d ''name'') log = ((h, pid, err), log')"
    by (metis prod_cases3 surj_pair)
  show ?thesis
  proof (cases err)
    case None
    with s show ?thesis by (simp add: rsVmRead_def)
  next
    case (Some e)
    with s have "h = []" using f_vmExists_error_host by blast
    with s show ?thesis by (simp add: rsVmRead_def)
  qed
qed

subsection \<open>The remote executor\<close>

text \<open>
  The fault that \<^verbatim>\<open>f_ssh\<close> returns is non-nil exactly when the process started and
  \<^verbatim>\<open>ssh.Wait()\<close> reported an error; what the process wrote on standard error has no
  part in it.
\<close>

lemma f_ssh_fault_iff:
  "snd (snd (fst (f_ssh cfg env host rcmd log))) \<noteq> None \<longleftrightarrow>
     start_err (env (log @ [ssh_args cfg host rcmd])) = None \<and>
     wait_err (env (log @ [ssh_args cfg host rcmd])) \<noteq> None"
  by (simp add: f_ssh_def Let_def)

lemma f_ssh_fault_ignores_stderr:
  "snd (snd (fst (f_ssh cfg (\<lambda>l. (env l)\<lparr>err_lines := ls l\<rparr>) host rcmd log))) =
   snd (snd (fst (f_ssh cfg env host rcmd log)))"
  by (simp add: f_ssh_def Let_def)

text \<open>
  C3. A remote session that could not be started is to give a non-nil fault, as a
  non-zero exit does, and the standard error alone is never to set it. The last two hold
  (\<open>f_ssh_fault_iff\<close>, \<open>f_ssh_fault_ignores_stderr\<close>); the first does not. When
  \<^verbatim>\<open>ssh.Start()\<close> fails, \<^verbatim>\<open>f_ssh\<close> logs the failure as fatal and returns empty
  output, empty standard error and a nil fault: here the \<^verbatim>\<open>ssh\<close> program cannot be
  executed, and the caller is told that the command ran cleanly.
\<close>

theorem f_ssh_failed_start_nil_fault:
  "fst (f_ssh (cluster [''ceph1''] [''A''])
         (script [fails_to_start ''fork/exec /usr/bin/ssh: permission denied''])
         ''A'' ''true'' []) = ([], [], None)"
  by (simp add: f_ssh_def script_def fails_to_start_def Let_def)

subsection \<open>The VM controller's read\<close>

text \<open>
  C2. \<^verbatim>\<open>rsVmRead\<close> is to set the derived id exactly when the prober returns a host
  and a nil error. The code tests \<^verbatim>\<open>fault != nil\<close> where \<^verbatim>\<open>rsRbdRead\<close> and
  \<^verbatim>\<open>rsVmExists\<close> test for a nil fault, and the prober never returns a host together
  with an error, so the id is never set (\<open>rsVmRead_never_sets_id\<close>). Here the VM runs
  on host A: the prober finds it with a nil error, \<^verbatim>\<open>rsVmExists\<close> reports it as
  existing, and \<^verbatim>\<open>rsVmRead\<close> leaves the id unset.
\<close>

theorem rsVmRead_found_vm_id_unset:
  "fst (f_vmExists (cluster [''ceph1''] [''A''])
         (script [prints [''2533650 /bin/qemu -name tf-helloVm -smp 1 -m 128'']]) ''helloVm'' [])
     = (''A'', 2533650, None)
   \<and> fst (rsVmExists (cluster [''ceph1''] [''A''])
         (script [prints [''2533650 /bin/qemu -name tf-helloVm -smp 1 -m 128'']])
         (vm_named ''helloVm'') [])
     = (True, None)
   \<and> Id (fst (snd (rsVmRead (cluster [''ceph1''] [''A''])
         (script [prints [''2533650 /bin/qemu -name tf-helloVm -smp 1 -m 128'']])
         (vm_named ''helloVm'') []))) = []"
  by code_simp

subsection \<open>Fail-fast search\<close>

text \<open>
  C5. The search contacts the first \<open>k\<close> hypervisors, in configured order, and no other.
  It returns a non-nil error exactly when one of the probes it made reported a transport
  fault or a non-empty standard error (a host that is not contacted reports nothing); that
  probe is then the last one made and the first failing one, no later host is contacted,
  and the result is the empty host, pid 0 and the probe's error. When no probe fails and none has the shape of the VM's process, every
  host is contacted and the result is the empty host, pid 0 and a nil error.
\<close>

theorem f_vmExists_fail_fast:
  fixes cfg env name log
  defines "hs \<equiv> G_qemu_hosts cfg"
    and "rs \<equiv> vm_probes cfg env name log"
    and "res \<equiv> f_vmExists cfg env name log"
  shows
    "\<exists>k \<le> length hs.
       snd res = log @ calls_to cfg (take k hs) (ps_cmd (vm_id name)) \<and>
       (snd (snd (fst res)) \<noteq> None \<longleftrightarrow> (\<exists>r \<in> set (take k rs). probe_failed r)) \<and>
       ((\<exists>r \<in> set (take k rs). probe_failed r) \<longrightarrow>
          0 < k \<and> probe_failed (rs ! (k - 1)) \<and> (\<forall>r \<in> set (take (k - 1) rs). \<not> probe_failed r) \<and>
          fst res = ([], 0, probe_error (rs ! (k - 1)))) \<and>
       ((\<forall>r \<in> set rs. \<not> probe_failed r \<and> \<not> vm_match (vm_id name) r) \<longrightarrow>
          k = length hs \<and> fst res = ([], 0, None))"
proof -
  have len: "length rs = length hs"
    by (simp add: rs_def hs_def vm_probes_def)
  from f_vmExists_outcome[of cfg env name log] consider
    (none) "\<forall>r \<in> set rs. \<not> probe_failed r \<and> \<not> vm_match (vm_id name) r"
      "res = (([], 0, None), log @ calls_to cfg hs (ps_cmd (vm_id name)))"
  | (fail) j where "j < length hs"
      "\<forall>r \<in> set (take j rs). \<not> probe_failed r \<and> \<not> vm_match (vm_id name) r"
      "probe_failed (rs ! j)"
      "res = (([], 0, probe_error (rs ! j)), log @ calls_to cfg (take (Suc j) hs) (ps_cmd (vm_id name)))"
  | (found) j where "j < length hs"
      "\<forall>r \<in> set (take j rs). \<not> probe_failed r \<and> \<not> vm_match (vm_id name) r"
      "\<not> probe_failed (rs ! j)" "vm_match (vm_id name) (rs ! j)"
      "res = ((hs ! j, vm_pid (rs ! j), None), log @ calls_to cfg (take (Suc j) hs) (ps_cmd (vm_id name)))"
    unfolding hs_def rs_def res_def by blast
  then show ?thesis
  proof cases
    case none
    then show ?thesis
      by (intro exI[of _ "length hs"]) (simp add: len)
  next
    case fail
    have in_set: "rs ! j \<in> set (take (Suc j) rs)"
      using fail(1) len by (simp add: take_Suc_conv_app_nth)
    have "rs ! j \<in> set rs" using fail(1) len by simp
    then have not_all: "\<not> (\<forall>r \<in> set rs. \<not> probe_failed r \<and> \<not> vm_match (vm_id name) r)"
      using fail(3) by blast
    show ?thesis
      using fail in_set not_all probe_error_Some[OF fail(3)]
      by (intro exI[of _ "Suc j"]) auto
  next
    case found
    have tk: "take (Suc j) rs = take j rs @ [rs ! j]"
      using found(1) len by (simp add: take_Suc_conv_app_nth)
    have "rs ! j \<in> set rs" using found(1) len by simp
    then have not_all: "\<not> (\<forall>r \<in> set rs. \<not> probe_failed r \<and> \<not> vm_match (vm_id name) r)"
      using found(4) by blast
    show ?thesis
      using found tk not_all
      by (intro exI[of _ "Suc j"]) auto
  qed
qed

theorem f_vmExists_fail_fast_witness:
  "(snd (snd (fst (f_vmExists (cluster [''ceph1''] [''A'', ''B'', ''C''])
       (script [prints [], complains [''boom''], prints [''2533650 /bin/qemu -name tf-helloVm -smp 1'']])
       ''helloVm'' []))) \<noteq> None
   \<and> (\<exists>k \<le> 3.
        (\<exists>r \<in> set (take k (vm_probes (cluster [''ceph1''] [''A'', ''B'', ''C''])
            (script [prints [], complains [''boom''], prints [''2533650 /bin/qemu -name tf-helloVm -smp 1'']])
            ''helloVm'' [])). probe_failed r)
        \<and> fst (f_vmExists (cluster [''ceph1''] [''A'', ''B'', ''C''])
            (script [prints [], complains [''boom''], prints [''2533650 /bin/qemu -name tf-helloVm -smp 1'']])
            ''helloVm'' []) =
           ([], 0, probe_error (vm_probes (cluster [''ceph1''] [''A'', ''B'', ''C''])
            (script [prints [], complains [''boom''], prints [''2533650 /bin/qemu -name tf-helloVm -smp 1'']])
            ''helloVm'' [] ! (k - 1)))))
   \<and> (map (\<lambda>r. \<not> probe_failed r \<and> \<not> vm_match (vm_id ''helloVm'') r)
      (vm_probes (cluster [''ceph1''] [''A'', ''B'']) (script [prints [], prints [''1 /sbin/init splash'']])
         ''helloVm'' [])
     = [True, True]
   \<and> f_vmExists (cluster [''ceph1''] [''A'', ''B'']) (script [prints [], prints [''1 /sbin/init splash'']])
         ''helloVm'' []
     = (([], 0, None),
        calls_to (cluster [''ceph1''] [''A'', ''B'']) [''A'', ''B''] (ps_cmd (vm_id ''helloVm''))))"
  (is "?part1 \<and> ?part2")
proof -
  have part1: ?part1
  proof -
    let ?C = "cluster [''ceph1''] [''A'', ''B'', ''C'']"
    let ?E = "script [prints [], complains [''boom''], prints [''2533650 /bin/qemu -name tf-helloVm -smp 1'']]"
    let ?res = "f_vmExists ?C ?E ''helloVm'' []"
    let ?rs = "vm_probes ?C ?E ''helloVm'' []"
    have err: "snd (snd (fst ?res)) \<noteq> None"
      by code_simp
    have hs: "length (G_qemu_hosts ?C) = 3"
      by (simp add: cluster_def)
    from f_vmExists_fail_fast[of ?C ?E "''helloVm''" "[]"] obtain k where
      k: "k \<le> length (G_qemu_hosts ?C)"
        "snd (snd (fst ?res)) \<noteq> None \<longleftrightarrow> (\<exists>r \<in> set (take k ?rs). probe_failed r)"
        "(\<exists>r \<in> set (take k ?rs). probe_failed r) \<longrightarrow>
            0 < k \<and> probe_failed (?rs ! (k - 1)) \<and> (\<forall>r \<in> set (take (k - 1) ?rs). \<not> probe_failed r) \<and>
            fst ?res = ([], 0, probe_error (?rs ! (k - 1)))"
      by blast
    from k(2) err have ex: "\<exists>r \<in> set (take k ?rs). probe_failed r" by blast
    with k(3) have "fst ?res = ([], 0, probe_error (?rs ! (k - 1)))" by blast
    with ex k(1) hs err show ?thesis by auto
  qed
  have part2: ?part2
  proof -
    let ?C = "cluster [''ceph1''] [''A'', ''B'']"
    let ?E = "script [prints [], prints [''1 /sbin/init splash'']]"
    let ?rs = "vm_probes ?C ?E ''helloVm'' []"
    let ?res = "f_vmExists ?C ?E ''helloVm'' []"
    have hs: "G_qemu_hosts ?C = [''A'', ''B'']"
      by (simp add: cluster_def)
    have clean: "map (\<lambda>r. \<not> probe_failed r \<and> \<not> vm_match (vm_id ''helloVm'') r) ?rs = [True, True]"
      by code_simp
    have len: "length ?rs = 2"
      unfolding vm_probes_def length_ssh_seq hs by simp
    have all: "\<forall>r \<in> set ?rs. \<not> probe_failed r \<and> \<not> vm_match (vm_id ''helloVm'') r"
      by (rule all_from_map) (simp add: clean len numeral_2_eq_2)
    from f_vmExists_fail_fast[of ?C ?E "''helloVm''" "[]"] obtain k where
      k: "snd ?res = [] @ calls_to ?C (take k (G_qemu_hosts ?C)) (ps_cmd (vm_id ''helloVm''))"
        "(\<forall>r \<in> set ?rs. \<not> probe_failed r \<and> \<not> vm_match (vm_id ''helloVm'') r) \<longrightarrow>
            k = length (G_qemu_hosts ?C) \<and> fst ?res = ([], 0, None)"
      by blast
    from k(2) all have "k = length (G_qemu_hosts ?C)" "fst ?res = ([], 0, None)"
      by blast+
    with k(1) have "?res = (([], 0, None), calls_to ?C [''A'', ''B''] (ps_cmd (vm_id ''helloVm'')))"
      unfolding hs by (simp add: prod_eq_iff)
    with clean show ?thesis by blast
  qed
  from part1 part2 show ?thesis by (rule conjI)
qed

subsection \<open>Matching a process line\<close>

lemma nth_in_take: "i < j \<Longrightarrow> j \<le> length xs \<Longrightarrow> xs ! i \<in> set (take j xs)"
  by (metis in_set_conv_nth length_take min.absorb2 nth_take)

lemma vm_match_fields:
  "vm_match ident r \<longleftrightarrow>
     length (Fields (fst r)) > 3 \<and> Fields (fst r) ! 2 = ''-name'' \<and> Fields (fst r) ! 3 = ident"
  by (cases r) simp

lemma vm_pid_fields: "vm_pid r = Atoi (Fields (fst r) ! 0)"
  by (cases r) simp

text \<open>
  C6. A search that reports a VM (a host or a pid) returns a nil error, and the output of
  the probe of the host it returns has more than three tokens, \<^verbatim>\<open>-name\<close> at token
  position 2, the derived id at position 3, and the reported pid is the integer read from
  token position 0. Conversely the first clean probe of that shape is accepted. A clean
  probe of any other shape is a non-match: the search goes on to the next host. The line
  \<^verbatim>\<open>2533650 /bin/qemu -name tf-helloVm -smp 1 -m 128\<close> yields host A and pid 2533650; with \<^verbatim>\<open>-name\<close> at position 4 on host A
  the search continues and finds the VM on host B.
\<close>

theorem f_vmExists_accepts_exact_shape:
  fixes cfg env name log
  defines "hs \<equiv> G_qemu_hosts cfg"
    and "rs \<equiv> vm_probes cfg env name log"
    and "res \<equiv> f_vmExists cfg env name log"
  shows
    "(\<forall>h pid err. fst res = (h, pid, err) \<and> (h \<noteq> [] \<or> pid \<noteq> 0) \<longrightarrow>
        err = None \<and>
        (\<exists>j < length hs.
           h = hs ! j \<and> snd res = log @ calls_to cfg (take (Suc j) hs) (ps_cmd (vm_id name)) \<and>
           \<not> probe_failed (rs ! j) \<and>
           length (Fields (fst (rs ! j))) > 3 \<and>
           Fields (fst (rs ! j)) ! 2 = ''-name'' \<and>
           Fields (fst (rs ! j)) ! 3 = cfg_vmNamePrefix @ ''-'' @ name \<and>
           pid = Atoi (Fields (fst (rs ! j)) ! 0)))
     \<and> (\<forall>j < length hs.
          (\<forall>r \<in> set (take j rs). \<not> probe_failed r \<and> \<not> vm_match (vm_id name) r) \<and>
          \<not> probe_failed (rs ! j) \<and> vm_match (vm_id name) (rs ! j) \<longrightarrow>
          fst res = (hs ! j, Atoi (Fields (fst (rs ! j)) ! 0), None))
     \<and> (\<forall>j. Suc j < length hs \<and>
          (\<forall>r \<in> set (take (Suc j) rs). \<not> probe_failed r \<and> \<not> vm_match (vm_id name) r) \<longrightarrow>
          (\<exists>k. Suc j < k \<and> k \<le> length hs \<and>
               snd res = log @ calls_to cfg (take k hs) (ps_cmd (vm_id name))))
     \<and> fst (f_vmExists (cluster [''ceph1''] [''A''])
           (script [prints [''2533650 /bin/qemu -name tf-helloVm -smp 1 -m 128'']]) ''helloVm'' [])
         = (''A'', 2533650, None)
     \<and> fst (f_vmExists (cluster [''ceph1''] [''A'', ''B''])
           (script [prints [''2533650 /bin/qemu -smp 1 -name tf-helloVm -m 128''],
                    prints [''4711 /bin/qemu -name tf-helloVm -smp 1 -m 128'']]) ''helloVm'' [])
         = (''B'', 4711, None)"
proof -
  have len: "length rs = length hs"
    by (simp add: rs_def hs_def vm_probes_def)
  from f_vmExists_outcome[of cfg env name log] consider
    (none) "\<forall>r \<in> set rs. \<not> probe_failed r \<and> \<not> vm_match (vm_id name) r"
      "res = (([], 0, None), log @ calls_to cfg hs (ps_cmd (vm_id name)))"
  | (fail) i where "i < length hs"
      "\<forall>r \<in> set (take i rs). \<not> probe_failed r \<and> \<not> vm_match (vm_id name) r"
      "probe_failed (rs ! i)"
      "res = (([], 0, probe_error (rs ! i)), log @ calls_to cfg (take (Suc i) hs) (ps_cmd (vm_id name)))"
  | (found) i where "i < length hs"
      "\<forall>r \<in> set (take i rs). \<not> probe_failed r \<and> \<not> vm_match (vm_id name) r"
      "\<not> probe_failed (rs ! i)" "vm_match (vm_id name) (rs ! i)"
      "res = ((hs ! i, vm_pid (rs ! i), None), log @ calls_to cfg (take (Suc i) hs) (ps_cmd (vm_id name)))"
    unfolding hs_def rs_def res_def by blast
  note outcome = this
  have only: "\<forall>h pid err. fst res = (h, pid, err) \<and> (h \<noteq> [] \<or> pid \<noteq> 0) \<longrightarrow>
        err = None \<and>
        (\<exists>j < length hs.
           h = hs ! j \<and> snd res = log @ calls_to cfg (take (Suc j) hs) (ps_cmd (vm_id name)) \<and>
           \<not> probe_failed (rs ! j) \<and>
           length (Fields (fst (rs ! j))) > 3 \<and>
           Fields (fst (rs ! j)) ! 2 = ''-name'' \<and>
           Fields (fst (rs ! j)) ! 3 = cfg_vmNamePrefix @ ''-'' @ name \<and>
           pid = Atoi (Fields (fst (rs ! j)) ! 0))"
  proof (cases rule: outcome)
    case none
    then show ?thesis by simp
  next
    case fail
    then show ?thesis by simp
  next
    case found
    from found(4) have shape: "length (Fields (fst (rs ! i))) > 3"
      "Fields (fst (rs ! i)) ! 2 = ''-name''"
      "Fields (fst (rs ! i)) ! 3 = cfg_vmNamePrefix @ ''-'' @ name"
      by (simp_all add: vm_match_fields vm_id_def)
    show ?thesis
      using found(1,3,5) shape by (auto simp: vm_pid_fields)
  qed
  have accept: "\<forall>j < length hs.
          (\<forall>r \<in> set (take j rs). \<not> probe_failed r \<and> \<not> vm_match (vm_id name) r) \<and>
          \<not> probe_failed (rs ! j) \<and> vm_match (vm_id name) (rs ! j) \<longrightarrow>
          fst res = (hs ! j, Atoi (Fields (fst (rs ! j)) ! 0), None)"
  proof (intro allI impI, elim conjE)
    fix j
    assume j: "j < length hs"
      and before: "\<forall>r \<in> set (take j rs). \<not> probe_failed r \<and> \<not> vm_match (vm_id name) r"
      and ok: "\<not> probe_failed (rs ! j)" and m: "vm_match (vm_id name) (rs ! j)"
    show "fst res = (hs ! j, Atoi (Fields (fst (rs ! j)) ! 0), None)"
    proof (cases rule: outcome)
      case none
      moreover have "rs ! j \<in> set rs" using j len by simp
      ultimately show ?thesis using m by blast
    next
      case fail
      have "\<not> i < j" using nth_in_take[of i j rs] before fail(3) j len by auto
      moreover have "i \<noteq> j" using fail(3) ok by blast
      moreover have "\<not> j < i" using nth_in_take[of j i rs] fail(1,2) m len by auto
      ultimately show ?thesis by linarith
    next
      case found
      have "\<not> i < j" using nth_in_take[of i j rs] before found(4) j len by auto
      moreover have "\<not> j < i" using nth_in_take[of j i rs] found(1,2) m len by auto
      ultimately have "i = j" by linarith
      then show ?thesis using found(5) by (simp add: vm_pid_fields)
    qed
  qed
  have continue: "\<forall>j. Suc j < length hs \<and>
          (\<forall>r \<in> set (take (Suc j) rs). \<not> probe_failed r \<and> \<not> vm_match (vm_id name) r) \<longrightarrow>
          (\<exists>k. Suc j < k \<and> k \<le> length hs \<and>
               snd res = log @ calls_to cfg (take k hs) (ps_cmd (vm_id name)))"
  proof (intro allI impI, elim conjE)
    fix j
    assume j: "Suc j < length hs"
      and clean: "\<forall>r \<in> set (take (Suc j) rs). \<not> probe_failed r \<and> \<not> vm_match (vm_id name) r"
    show "\<exists>k. Suc j < k \<and> k \<le> length hs \<and>
               snd res = log @ calls_to cfg (take k hs) (ps_cmd (vm_id name))"
    proof (cases rule: outcome)
      case none
      then show ?thesis using j by (intro exI[of _ "length hs"]) simp
    next
      case fail
      have "\<not> i < Suc j" using nth_in_take[of i "Suc j" rs] clean fail(3) j len by auto
      then show ?thesis using fail(1,4) by (intro exI[of _ "Suc i"]) simp
    next
      case found
      have "\<not> i < Suc j" using nth_in_take[of i "Suc j" rs] clean found(4) j len by auto
      then show ?thesis using found(1,5) by (intro exI[of _ "Suc i"]) simp
    qed
  qed
  have ex1: "fst (f_vmExists (cluster [''ceph1''] [''A''])
           (script [prints [''2533650 /bin/qemu -name tf-helloVm -smp 1 -m 128'']]) ''helloVm'' [])
         = (''A'', 2533650, None)"
    by code_simp
  have ex2: "fst (f_vmExists (cluster [''ceph1''] [''A'', ''B''])
           (script [prints [''2533650 /bin/qemu -smp 1 -name tf-helloVm -m 128''],
                    prints [''4711 /bin/qemu -name tf-helloVm -smp 1 -m 128'']]) ''helloVm'' [])
         = (''B'', 4711, None)"
    by code_simp
  from only accept continue ex1 ex2 show ?thesis by blast
qed

theorem f_vmExists_accepts_exact_shape_witness:
  "(fst (f_vmExists (cluster [''ceph1''] [''A'', ''B''])
      (script [prints [''2533650 /bin/qemu -smp 1 -name tf-helloVm -m 128''],
               prints [''4711 /bin/qemu -name tf-helloVm -smp 1 -m 128'']]) ''helloVm'' [])
     = (''B'', 4711, None)
   \<and> ''B'' \<noteq> []
   \<and> (\<exists>j < length (G_qemu_hosts (cluster [''ceph1''] [''A'', ''B''])).
        ''B'' = G_qemu_hosts (cluster [''ceph1''] [''A'', ''B'']) ! j \<and>
        Fields (fst (vm_probes (cluster [''ceph1''] [''A'', ''B''])
          (script [prints [''2533650 /bin/qemu -smp 1 -name tf-helloVm -m 128''],
                   prints [''4711 /bin/qemu -name tf-helloVm -smp 1 -m 128'']]) ''helloVm'' [] ! j)) ! 2
          = ''-name'' \<and>
        4711 = Atoi (Fields (fst (vm_probes (cluster [''ceph1''] [''A'', ''B''])
          (script [prints [''2533650 /bin/qemu -smp 1 -name tf-helloVm -m 128''],
                   prints [''4711 /bin/qemu -name tf-helloVm -smp 1 -m 128'']]) ''helloVm'' [] ! j)) ! 0)))
   \<and> (map (\<lambda>r. \<not> probe_failed r \<and> \<not> vm_match (vm_id ''helloVm'') r)
      (take (Suc 0) (vm_probes (cluster [''ceph1''] [''A'', ''B''])
         (script [prints [''2533650 /bin/qemu -smp 1 -name tf-helloVm -m 128''],
                  prints [''4711 /bin/qemu -name tf-helloVm -smp 1 -m 128'']]) ''helloVm'' []))
     = [True]
   \<and> vm_match (vm_id ''helloVm'')
        (vm_probes (cluster [''ceph1''] [''A'', ''B''])
         (script [prints [''2533650 /bin/qemu -smp 1 -name tf-helloVm -m 128''],
                  prints [''4711 /bin/qemu -name tf-helloVm -smp 1 -m 128'']]) ''helloVm'' [] ! 1)
   \<and> fst (f_vmExists (cluster [''ceph1''] [''A'', ''B''])
         (script [prints [''2533650 /bin/qemu -smp 1 -name tf-helloVm -m 128''],
                  prints [''4711 /bin/qemu -name tf-helloVm -smp 1 -m 128'']]) ''helloVm'' [])
     = (G_qemu_hosts (cluster [''ceph1''] [''A'', ''B'']) ! 1,
        Atoi (Fields (fst (vm_probes (cluster [''ceph1''] [''A'', ''B''])
         (script [prints [''2533650 /bin/qemu -smp 1 -name tf-helloVm -m 128''],
                  prints [''4711 /bin/qemu -name tf-helloVm -smp 1 -m 128'']]) ''helloVm'' [] ! 1)) ! 0),
        None)
   \<and> (\<exists>k. Suc 0 < k \<and> k \<le> length (G_qemu_hosts (cluster [''ceph1''] [''A'', ''B''])) \<and>
         snd (f_vmExists (cluster [''ceph1''] [''A'', ''B''])
           (script [prints [''2533650 /bin/qemu -smp 1 -name tf-helloVm -m 128''],
                    prints [''4711 /bin/qemu -name tf-helloVm -smp 1 -m 128'']]) ''helloVm'' [])
          = [] @ calls_to (cluster [''ceph1''] [''A'', ''B''])
                   (take k (G_qemu_hosts (cluster [''ceph1''] [''A'', ''B''])))
                   (ps_cmd (vm_id ''helloVm''))))"
  (is "?part1 \<and> ?part2")
proof -
  have part1: ?part1
  proof -
    let ?C = "cluster [''ceph1''] [''A'', ''B'']"
    let ?E = "script [prints [''2533650 /bin/qemu -smp 1 -name tf-helloVm -m 128''],
                 prints [''4711 /bin/qemu -name tf-helloVm -smp 1 -m 128'']]"
    note T = f_vmExists_accepts_exact_shape[of ?C ?E "''helloVm''" "[]"]
    from T have found: "fst (f_vmExists ?C ?E ''helloVm'' []) = (''B'', 4711, None)"
      by blast
    have ne: "''B'' \<noteq> []" by simp
    from T have "\<forall>h pid err. fst (f_vmExists ?C ?E ''helloVm'' []) = (h, pid, err) \<and> (h \<noteq> [] \<or> pid \<noteq> 0) \<longrightarrow>
          err = None \<and>
          (\<exists>j < length (G_qemu_hosts ?C).
             h = G_qemu_hosts ?C ! j \<and>
             snd (f_vmExists ?C ?E ''helloVm'' []) = [] @ calls_to ?C (take (Suc j) (G_qemu_hosts ?C)) (ps_cmd (vm_id ''helloVm'')) \<and>
             \<not> probe_failed (vm_probes ?C ?E ''helloVm'' [] ! j) \<and>
             length (Fields (fst (vm_probes ?C ?E ''helloVm'' [] ! j))) > 3 \<and>
             Fields (fst (vm_probes ?C ?E ''helloVm'' [] ! j)) ! 2 = ''-name'' \<and>
             Fields (fst (vm_probes ?C ?E ''helloVm'' [] ! j)) ! 3 = cfg_vmNamePrefix @ ''-'' @ ''helloVm'' \<and>
             pid = Atoi (Fields (fst (vm_probes ?C ?E ''helloVm'' [] ! j)) ! 0))"
      by (rule conjunct1)
    from this[rule_format, of "''B''" 4711 None] found ne
    show ?thesis by blast
  qed
  have part2: ?part2
  proof -
    let ?C = "cluster [''ceph1''] [''A'', ''B'']"
    let ?E = "script [prints [''2533650 /bin/qemu -smp 1 -name tf-helloVm -m 128''],
                    prints [''4711 /bin/qemu -name tf-helloVm -smp 1 -m 128'']]"
    let ?rs = "vm_probes ?C ?E ''helloVm'' []"
    let ?res = "f_vmExists ?C ?E ''helloVm'' []"
    let ?ok = "\<lambda>r. \<not> probe_failed r \<and> \<not> vm_match (vm_id ''helloVm'') r"
    have hs: "length (G_qemu_hosts ?C) = 2"
      by (simp add: cluster_def)
    have len: "length ?rs = 2"
      unfolding vm_probes_def length_ssh_seq hs ..
    have first: "map ?ok (take (Suc 0) ?rs) = [True]"
      by code_simp
    have second: "\<not> probe_failed (?rs ! 1)" "vm_match (vm_id ''helloVm'') (?rs ! 1)"
      by code_simp+
    have before: "\<forall>r \<in> set (take (Suc 0) ?rs). ?ok r"
      by (rule all_from_map) (simp add: first len)
    note T = f_vmExists_accepts_exact_shape[of ?C ?E "''helloVm''" "[]"]
    from T have "\<forall>j < length (G_qemu_hosts ?C).
            (\<forall>r \<in> set (take j ?rs). ?ok r) \<and>
            \<not> probe_failed (?rs ! j) \<and> vm_match (vm_id ''helloVm'') (?rs ! j) \<longrightarrow>
            fst ?res = (G_qemu_hosts ?C ! j, Atoi (Fields (fst (?rs ! j)) ! 0), None)"
      by (rule conjunct1[OF conjunct2])
    from this[rule_format, of 1] before second hs
    have accepted: "fst ?res = (G_qemu_hosts ?C ! 1, Atoi (Fields (fst (?rs ! 1)) ! 0), None)"
      by simp
    from T have "\<forall>j. Suc j < length (G_qemu_hosts ?C) \<and> (\<forall>r \<in> set (take (Suc j) ?rs). ?ok r) \<longrightarrow>
            (\<exists>k. Suc j < k \<and> k \<le> length (G_qemu_hosts ?C) \<and>
                 snd ?res = [] @ calls_to ?C (take k (G_qemu_hosts ?C)) (ps_cmd (vm_id ''helloVm'')))"
      by (rule conjunct1[OF conjunct2[OF conjunct2]])
    from this[rule_format, of 0] before hs
    have continued: "\<exists>k. Suc 0 < k \<and> k \<le> length (G_qemu_hosts ?C) \<and>
                 snd ?res = [] @ calls_to ?C (take k (G_qemu_hosts ?C)) (ps_cmd (vm_id ''helloVm''))"
      by simp
    from first second(2) accepted continued show ?thesis
      by (intro conjI)
  qed
  from part1 part2 show ?thesis by (rule conjI)
qed

subsection \<open>Deleting a VM\<close>

lemma rsVmDelete_cases:
  assumes "f_vmExists cfg env (attr_string d ''name'') log = ((h, pid, err), log1)"
  shows "rsVmDelete cfg env d log =
     (if h \<noteq> [] \<and> pid > 1 \<and> err = None then
        (if snd (snd (fst (f_ssh cfg env h (''kill '' @ Sprint_d pid) log1))) \<noteq> None
         then Some (''Failed to delete '' @ attr_string d ''name'' @ '' pid:'' @ Sprint_d pid @ '' on ''
                               @ h @ '' - %!s(MISSING)'')
         else None,
         log1 @ [ssh_args cfg h (''kill '' @ Sprint_d pid)])
      else (Some (''Could not locate VM and pid of '' @ attr_string d ''name''), log1))"
proof -
  obtain out_buf err_buf fault where
    "f_ssh cfg env h (''kill '' @ Sprint_d pid) log1 =
       ((out_buf, err_buf, fault), log1 @ [ssh_args cfg h (''kill '' @ Sprint_d pid)])"
    by (rule f_ssh_result)
  with assms show ?thesis
    by (simp add: rsVmDelete_def Let_def)
qed

text \<open>
  C7. When the prober returns no host, and in particular when no probe on any hypervisor
  shows the VM's process, \<^verbatim>\<open>rsVmDelete\<close> returns the error
  \<^verbatim>\<open>Could not locate VM and pid of <name>\<close>, never nil, and contacts no host beyond
  those the prober contacted.
\<close>

theorem rsVmDelete_absent_vm_is_error:
  "(\<forall>h pid err log1.
      f_vmExists cfg env (attr_string d ''name'') log = ((h, pid, err), log1) \<and> h = [] \<longrightarrow>
      rsVmDelete cfg env d log = (Some (''Could not locate VM and pid of '' @ attr_string d ''name''), log1))
   \<and> ((\<forall>r \<in> set (vm_probes cfg env (attr_string d ''name'') log).
          \<not> vm_match (vm_id (attr_string d ''name'')) r) \<longrightarrow>
       fst (rsVmDelete cfg env d log) = Some (''Could not locate VM and pid of '' @ attr_string d ''name'')
       \<and> snd (rsVmDelete cfg env d log) = snd (f_vmExists cfg env (attr_string d ''name'') log))"
proof -
  let ?name = "attr_string d ''name''"
  let ?rs = "vm_probes cfg env ?name log"
  have empty: "rsVmDelete cfg env d log = (Some (''Could not locate VM and pid of '' @ ?name), log1)"
    if "f_vmExists cfg env ?name log = ((h, pid, err), log1)" "h = []" for h pid err log1
    using rsVmDelete_cases[OF that(1)] that(2) by simp
  have "fst (rsVmDelete cfg env d log) = Some (''Could not locate VM and pid of '' @ ?name)
       \<and> snd (rsVmDelete cfg env d log) = snd (f_vmExists cfg env ?name log)"
    if nomatch: "\<forall>r \<in> set ?rs. \<not> vm_match (vm_id ?name) r"
  proof -
    have len: "length ?rs = length (G_qemu_hosts cfg)"
      by (simp add: vm_probes_def)
    have "\<exists>pid err log1. f_vmExists cfg env ?name log = (([], pid, err), log1)"
    proof -
      have "\<not> (\<exists>j < length (G_qemu_hosts cfg). vm_match (vm_id ?name) (?rs ! j))"
        using nomatch len by auto
      then show ?thesis
        using f_vmExists_outcome[of cfg env ?name log] by blast
    qed
    then show ?thesis using empty by auto
  qed
  with empty show ?thesis by blast
qed

theorem rsVmDelete_absent_vm_is_error_witness:
  "(f_vmExists (cluster [''ceph1''] [''A'']) (script [prints []]) ''helloVm'' []
     = (([], 0, None), [ssh_args (cluster [''ceph1''] [''A'']) ''A'' (ps_cmd ''tf-helloVm'')])
   \<and> rsVmDelete (cluster [''ceph1''] [''A'']) (script [prints []]) (vm_named ''helloVm'') []
     = (Some ''Could not locate VM and pid of helloVm'',
        [ssh_args (cluster [''ceph1''] [''A'']) ''A'' (ps_cmd ''tf-helloVm'')]))
   \<and> (map (vm_match (vm_id ''helloVm''))
      (vm_probes (cluster [''ceph1''] [''A'', ''B''])
         (script [prints [], exits_with ''exit status 255'']) ''helloVm'' [])
     = [False, False]
   \<and> fst (rsVmDelete (cluster [''ceph1''] [''A'', ''B''])
         (script [prints [], exits_with ''exit status 255'']) (vm_named ''helloVm'') [])
     = Some ''Could not locate VM and pid of helloVm'')"
  (is "?part1 \<and> ?part2")
proof -
  have part1: ?part1
  proof -
    let ?C = "cluster [''ceph1''] [''A'']"
    let ?E = "script [prints []]"
    let ?L = "[ssh_args ?C ''A'' (ps_cmd ''tf-helloVm'')]"
    have nm: "attr_string (vm_named ''helloVm'') ''name'' = ''helloVm''"
      by (simp add: vm_named_def)
    have probe: "f_vmExists ?C ?E ''helloVm'' [] = (([], 0, None), ?L)"
      by code_simp
    from rsVmDelete_absent_vm_is_error[of ?C ?E "vm_named ''helloVm''" "[]"]
    have "\<forall>h pid err log1.
        f_vmExists ?C ?E ''helloVm'' [] = ((h, pid, err), log1) \<and> h = [] \<longrightarrow>
        rsVmDelete ?C ?E (vm_named ''helloVm'') [] = (Some (''Could not locate VM and pid of '' @ ''helloVm''), log1)"
      unfolding nm by (rule conjunct1)
    from this[rule_format, of "[]" 0 None ?L] probe show ?thesis by simp
  qed
  have part2: ?part2
  proof -
    let ?C = "cluster [''ceph1''] [''A'', ''B'']"
    let ?E = "script [prints [], exits_with ''exit status 255'']"
    let ?rs = "vm_probes ?C ?E ''helloVm'' []"
    have nm: "attr_string (vm_named ''helloVm'') ''name'' = ''helloVm''"
      by (simp add: vm_named_def)
    have hs: "length (G_qemu_hosts ?C) = 2"
      by (simp add: cluster_def)
    have len: "length ?rs = 2"
      unfolding vm_probes_def length_ssh_seq hs ..
    have none: "map (vm_match (vm_id ''helloVm'')) ?rs = [False, False]"
      by code_simp
    then have "map (\<lambda>r. \<not> vm_match (vm_id ''helloVm'') r) ?rs = replicate (length ?rs) True"
      by (simp add: len numeral_2_eq_2 map_eq_Cons_conv)
    then have all: "\<forall>r \<in> set ?rs. \<not> vm_match (vm_id ''helloVm'') r"
      by (rule all_from_map)
    from rsVmDelete_absent_vm_is_error[of ?C ?E "vm_named ''helloVm''" "[]"] all
    have "fst (rsVmDelete ?C ?E (vm_named ''helloVm'') []) = Some (''Could not locate VM and pid of '' @ ''helloVm'')"
      unfolding nm by blast
    with none show ?thesis by simp
  qed
  from part1 part2 show ?thesis by (rule conjI)
qed

text \<open>
  C10. \<^verbatim>\<open>rsVmDelete\<close> contacts a host after the search only when the located pid is
  greater than 1, and then with the command \<^verbatim>\<open>kill <pid>\<close>; with a pid of 1 or less
  it returns the not-found error and sends nothing. A pid token that is not an integer is
  read as 0: the process on host A is found with pid 0, and no kill is sent.
\<close>

theorem rsVmDelete_kill_needs_pid_above_1:
  "(\<forall>h pid err log1.
      f_vmExists cfg env (attr_string d ''name'') log = ((h, pid, err), log1) \<longrightarrow>
        (snd (rsVmDelete cfg env d log) \<noteq> log1 \<longrightarrow> 1 < pid) \<and>
        (pid \<le> 1 \<longrightarrow>
           rsVmDelete cfg env d log =
             (Some (''Could not locate VM and pid of '' @ attr_string d ''name''), log1)) \<and>
        (h \<noteq> [] \<and> 1 < pid \<and> err = None \<longrightarrow>
           snd (rsVmDelete cfg env d log) = log1 @ [ssh_args cfg h (''kill '' @ Sprint_d pid)]))
   \<and> f_vmExists (cluster [''ceph1''] [''A''])
        (script [prints [''pid /bin/qemu -name tf-helloVm -smp 1 -m 128'']]) ''helloVm'' []
       = ((''A'', 0, None), [ssh_args (cluster [''ceph1''] [''A'']) ''A'' (ps_cmd ''tf-helloVm'')])
   \<and> rsVmDelete (cluster [''ceph1''] [''A''])
        (script [prints [''pid /bin/qemu -name tf-helloVm -smp 1 -m 128'']]) (vm_named ''helloVm'') []
       = (Some ''Could not locate VM and pid of helloVm'',
          [ssh_args (cluster [''ceph1''] [''A'']) ''A'' (ps_cmd ''tf-helloVm'')])"
proof -
  have general: "(snd (rsVmDelete cfg env d log) \<noteq> log1 \<longrightarrow> 1 < pid) \<and>
        (pid \<le> 1 \<longrightarrow>
           rsVmDelete cfg env d log =
             (Some (''Could not locate VM and pid of '' @ attr_string d ''name''), log1)) \<and>
        (h \<noteq> [] \<and> 1 < pid \<and> err = None \<longrightarrow>
           snd (rsVmDelete cfg env d log) = log1 @ [ssh_args cfg h (''kill '' @ Sprint_d pid)])"
    if "f_vmExists cfg env (attr_string d ''name'') log = ((h, pid, err), log1)" for h pid err log1
    using rsVmDelete_cases[OF that] by simp
  have ex1: "f_vmExists (cluster [''ceph1''] [''A''])
        (script [prints [''pid /bin/qemu -name tf-helloVm -smp 1 -m 128'']]) ''helloVm'' []
       = ((''A'', 0, None), [ssh_args (cluster [''ceph1''] [''A'']) ''A'' (ps_cmd ''tf-helloVm'')])"
    by code_simp
  have ex2: "rsVmDelete (cluster [''ceph1''] [''A''])
        (script [prints [''pid /bin/qemu -name tf-helloVm -smp 1 -m 128'']]) (vm_named ''helloVm'') []
       = (Some ''Could not locate VM and pid of helloVm'',
          [ssh_args (cluster [''ceph1''] [''A'']) ''A'' (ps_cmd ''tf-helloVm'')])"
  proof -
    have nm: "attr_string (vm_named ''helloVm'') ''name'' = ''helloVm''"
      by (simp add: vm_named_def)
    show ?thesis
      using rsVmDelete_cases[of "cluster [''ceph1''] [''A'']"
          "script [prints [''pid /bin/qemu -name tf-helloVm -smp 1 -m 128'']]"
          "vm_named ''helloVm''" "[]" "''A''" 0 None
          "[ssh_args (cluster [''ceph1''] [''A'']) ''A'' (ps_cmd ''tf-helloVm'')]"]
        ex1
      unfolding nm by simp
  qed
  from general ex1 ex2 show ?thesis by blast
qed

theorem rsVmDelete_kill_needs_pid_above_1_witness:
  "f_vmExists (cluster [''ceph1''] [''A''])
      (script [prints [''1 /sbin/init -name tf-helloVm'']]) ''helloVm'' []
     = ((''A'', 1, None), [ssh_args (cluster [''ceph1''] [''A'']) ''A'' (ps_cmd ''tf-helloVm'')])
   \<and> rsVmDelete (cluster [''ceph1''] [''A''])
      (script [prints [''1 /sbin/init -name tf-helloVm'']]) (vm_named ''helloVm'') []
     = (Some ''Could not locate VM and pid of helloVm'',
        [ssh_args (cluster [''ceph1''] [''A'']) ''A'' (ps_cmd ''tf-helloVm'')])
   \<and> f_vmExists (cluster [''ceph1''] [''A''])
      (script [prints [''2533650 /bin/qemu -name tf-helloVm -smp 1''], prints []]) ''helloVm'' []
     = ((''A'', 2533650, None), [ssh_args (cluster [''ceph1''] [''A'']) ''A'' (ps_cmd ''tf-helloVm'')])
   \<and> snd (rsVmDelete (cluster [''ceph1''] [''A''])
      (script [prints [''2533650 /bin/qemu -name tf-helloVm -smp 1''], prints []]) (vm_named ''helloVm'') [])
     = [ssh_args (cluster [''ceph1''] [''A'']) ''A'' (ps_cmd ''tf-helloVm''),
        ssh_args (cluster [''ceph1''] [''A'']) ''A'' ''kill 2533650'']"
proof -
  let ?C = "cluster [''ceph1''] [''A'']"
  let ?E1 = "script [prints [''1 /sbin/init -name tf-helloVm'']]"
  let ?E2 = "script [prints [''2533650 /bin/qemu -name tf-helloVm -smp 1''], prints []]"
  let ?L = "[ssh_args ?C ''A'' (ps_cmd ''tf-helloVm'')]"
  have nm: "attr_string (vm_named ''helloVm'') ''name'' = ''helloVm''"
    by (simp add: vm_named_def)
  have p1: "f_vmExists ?C ?E1 ''helloVm'' [] = ((''A'', 1, None), ?L)"
    by code_simp
  have p2: "f_vmExists ?C ?E2 ''helloVm'' [] = ((''A'', 2533650, None), ?L)"
    by code_simp
  have k: "Sprint_d 2533650 = ''2533650''"
    by code_simp
  from rsVmDelete_kill_needs_pid_above_1[of ?C ?E1 "vm_named ''helloVm''" "[]"]
  have "\<forall>h pid err log1.
      f_vmExists ?C ?E1 ''helloVm'' [] = ((h, pid, err), log1) \<longrightarrow>
        (snd (rsVmDelete ?C ?E1 (vm_named ''helloVm'') []) \<noteq> log1 \<longrightarrow> 1 < pid) \<and>
        (pid \<le> 1 \<longrightarrow>
           rsVmDelete ?C ?E1 (vm_named ''helloVm'') [] =
             (Some (''Could not locate VM and pid of '' @ ''helloVm''), log1)) \<and>
        (h \<noteq> [] \<and> 1 < pid \<and> err = None \<longrightarrow>
           snd (rsVmDelete ?C ?E1 (vm_named ''helloVm'') []) = log1 @ [ssh_args ?C h (''kill '' @ Sprint_d pid)])"
    unfolding nm by (rule conjunct1)
  from this[rule_format, of "''A''" 1 None ?L] p1
  have d1: "rsVmDelete ?C ?E1 (vm_named ''helloVm'') [] = (Some ''Could not locate VM and pid of helloVm'', ?L)"
    by simp
  from rsVmDelete_kill_needs_pid_above_1[of ?C ?E2 "vm_named ''helloVm''" "[]"]
  have "\<forall>h pid err log1.
      f_vmExists ?C ?E2 ''helloVm'' [] = ((h, pid, err), log1) \<longrightarrow>
        (snd (rsVmDelete ?C ?E2 (vm_named ''helloVm'') []) \<noteq> log1 \<longrightarrow> 1 < pid) \<and>
        (pid \<le> 1 \<longrightarrow>
           rsVmDelete ?C ?E2 (vm_named ''helloVm'') [] =
             (Some (''Could not locate VM and pid of '' @ ''helloVm''), log1)) \<and>
        (h \<noteq> [] \<and> 1 < pid \<and> err = None \<longrightarrow>
           snd (rsVmDelete ?C ?E2 (vm_named ''helloVm'') []) = log1 @ [ssh_args ?C h (''kill '' @ Sprint_d pid)])"
    unfolding nm by (rule conjunct1)
  from this[rule_format, of "''A''" 2533650 None ?L] p2
  have d2: "snd (rsVmDelete ?C ?E2 (vm_named ''helloVm'') []) = ?L @ [ssh_args ?C ''A'' (''kill '' @ Sprint_d 2533650)]"
    by simp
  from p1 d1 p2 d2 show ?thesis unfolding k by simp
qed

subsection \<open>Reading and creating a storage volume\<close>

lemma f_rbdExists_probe_failed:
  assumes "G_ceph_hosts cfg = h0 # hs"
    and "probe_failed (fst (f_ssh cfg env h0 (''rbd ls -p '' @ osd_pool) log))"
  shows "\<exists>e. f_rbdExists cfg env osd_pool img_name log =
           (Return (False, Some e), log @ [ssh_args cfg h0 (''rbd ls -p '' @ osd_pool)])"
proof -
  obtain out_buf err_buf fault where
    s: "f_ssh cfg env h0 (''rbd ls -p '' @ osd_pool) log =
       ((out_buf, err_buf, fault), log @ [ssh_args cfg h0 (''rbd ls -p '' @ osd_pool)])"
    by (rule f_ssh_result)
  with assms show ?thesis
    by (cases fault) (auto simp: f_rbdExists_def Let_def)
qed

lemma f_rbdExists_returns:
  "G_ceph_hosts cfg \<noteq> [] \<Longrightarrow> \<exists>found fault log'. f_rbdExists cfg env osd_pool img_name log = (Return (found, fault), log')"
  by (cases "G_ceph_hosts cfg")
     (auto simp: f_rbdExists_def Let_def split: prod.splits option.splits)

text \<open>
  C9. \<^verbatim>\<open>rsRbdRead\<close> never returns a non-nil error, and returns nil whenever a
  storage-admin host is configured (with none configured, \<^verbatim>\<open>G_ceph_hosts[0]\<close>
  panics). When the inventory prober reports an error, and likewise when it reports the
  image as absent, the call returns nil and leaves the resource data, hence its
  identifier, as it was: the two cases cannot be told apart. A transport fault or a
  non-empty standard error of the listing command is such a case.
\<close>

theorem rsRbdRead_always_nil:
  fixes cfg env d log
  defines "pool \<equiv> attr_string d ''osd_pool''" and "name \<equiv> attr_string d ''img_name''"
  shows
    "(\<forall>e. fst (rsRbdRead cfg env d log) \<noteq> Return (Some e))
     \<and> (G_ceph_hosts cfg \<noteq> [] \<longrightarrow> fst (rsRbdRead cfg env d log) = Return None)
     \<and> (\<forall>found e log'.
          f_rbdExists cfg env pool name log = (Return (found, Some e), log') \<longrightarrow>
          rsRbdRead cfg env d log = (Return None, d, log'))
     \<and> (\<forall>log'.
          f_rbdExists cfg env pool name log = (Return (False, None), log') \<longrightarrow>
          rsRbdRead cfg env d log = (Return None, d, log'))
     \<and> (\<forall>h0 hs.
          G_ceph_hosts cfg = h0 # hs \<and>
          probe_failed (fst (f_ssh cfg env h0 (''rbd ls -p '' @ pool) log)) \<longrightarrow>
          rsRbdRead cfg env d log = (Return None, d, log @ [ssh_args cfg h0 (''rbd ls -p '' @ pool)]))"
proof -
  have never: "\<forall>e. fst (rsRbdRead cfg env d log) \<noteq> Return (Some e)"
    by (auto simp: rsRbdRead_def Let_def split: prod.splits go.splits)
  have returns: "G_ceph_hosts cfg \<noteq> [] \<longrightarrow> fst (rsRbdRead cfg env d log) = Return None"
    using f_rbdExists_returns[of cfg env pool name log]
    by (auto simp: rsRbdRead_def Let_def pool_def name_def)
  have err: "\<forall>found e log'.
          f_rbdExists cfg env pool name log = (Return (found, Some e), log') \<longrightarrow>
          rsRbdRead cfg env d log = (Return None, d, log')"
    by (simp add: rsRbdRead_def Let_def pool_def name_def)
  have absent: "\<forall>log'.
          f_rbdExists cfg env pool name log = (Return (False, None), log') \<longrightarrow>
          rsRbdRead cfg env d log = (Return None, d, log')"
    by (simp add: rsRbdRead_def Let_def pool_def name_def)
  have failed: "\<forall>h0 hs.
          G_ceph_hosts cfg = h0 # hs \<and>
          probe_failed (fst (f_ssh cfg env h0 (''rbd ls -p '' @ pool) log)) \<longrightarrow>
          rsRbdRead cfg env d log = (Return None, d, log @ [ssh_args cfg h0 (''rbd ls -p '' @ pool)])"
    using f_rbdExists_probe_failed[of cfg _ _ env pool log name] err by blast
  from never returns err absent failed show ?thesis by blast
qed

theorem rsRbdRead_always_nil_witness:
  "G_ceph_hosts (cluster [''ceph1''] [''A'']) \<noteq> []
   \<and> f_rbdExists (cluster [''ceph1''] [''A'']) (script [complains [''rbd: error opening pool'']])
        ''rbd'' ''helloImg'' []
      = (Return (False, Some ''rbd fault - rbd: error opening pool''),
         [ssh_args (cluster [''ceph1''] [''A'']) ''ceph1'' ''rbd ls -p rbd''])
   \<and> rsRbdRead (cluster [''ceph1''] [''A'']) (script [complains [''rbd: error opening pool'']])
        (image ''rbd'' ''helloImg'' ''6M'') []
      = (Return None, image ''rbd'' ''helloImg'' ''6M'',
         [ssh_args (cluster [''ceph1''] [''A'']) ''ceph1'' ''rbd ls -p rbd''])
   \<and> f_rbdExists (cluster [''ceph1''] [''A'']) (script [prints [''otherImg'']])
        ''rbd'' ''helloImg'' []
      = (Return (False, None), [ssh_args (cluster [''ceph1''] [''A'']) ''ceph1'' ''rbd ls -p rbd''])
   \<and> rsRbdRead (cluster [''ceph1''] [''A'']) (script [prints [''otherImg'']])
        (image ''rbd'' ''helloImg'' ''6M'') []
      = (Return None, image ''rbd'' ''helloImg'' ''6M'',
         [ssh_args (cluster [''ceph1''] [''A'']) ''ceph1'' ''rbd ls -p rbd''])"
proof -
  let ?C = "cluster [''ceph1''] [''A'']"
  let ?E1 = "script [complains [''rbd: error opening pool'']]"
  let ?E2 = "script [prints [''otherImg'']]"
  let ?d = "image ''rbd'' ''helloImg'' ''6M''"
  let ?L = "[ssh_args ?C ''ceph1'' ''rbd ls -p rbd'']"
  have pool: "attr_string ?d ''osd_pool'' = ''rbd''" and name: "attr_string ?d ''img_name'' = ''helloImg''"
    by (simp_all add: image_def)
  have hosts: "G_ceph_hosts ?C \<noteq> []"
    by (simp add: cluster_def)
  have p1: "f_rbdExists ?C ?E1 ''rbd'' ''helloImg'' [] = (Return (False, Some ''rbd fault - rbd: error opening pool''), ?L)"
    by code_simp
  have p2: "f_rbdExists ?C ?E2 ''rbd'' ''helloImg'' [] = (Return (False, None), ?L)"
    by code_simp
  note T1 = rsRbdRead_always_nil[of ?C ?E1 ?d "[]", unfolded pool name]
  note T2 = rsRbdRead_always_nil[of ?C ?E2 ?d "[]", unfolded pool name]
  from T1 have "\<forall>found e log'.
          f_rbdExists ?C ?E1 ''rbd'' ''helloImg'' [] = (Return (found, Some e), log') \<longrightarrow>
          rsRbdRead ?C ?E1 ?d [] = (Return None, ?d, log')"
    by blast
  from this[rule_format, OF p1] have r1: "rsRbdRead ?C ?E1 ?d [] = (Return None, ?d, ?L)" .
  from T2 have "\<forall>log'.
          f_rbdExists ?C ?E2 ''rbd'' ''helloImg'' [] = (Return (False, None), log') \<longrightarrow>
          rsRbdRead ?C ?E2 ?d [] = (Return None, ?d, log')"
    by blast
  from this[rule_format, OF p2] have r2: "rsRbdRead ?C ?E2 ?d [] = (Return None, ?d, ?L)" .
  from hosts p1 r1 p2 r2 show ?thesis by blast
qed

text \<open>
  C1. Let the creation command run on the first storage-admin host. If it reports a
  transport fault or a non-empty standard error, \<^verbatim>\<open>rsRbdCreate\<close> returns a non-nil
  error, leaves the resource data as it was (the identifier is not set) and does nothing
  more. Otherwise the identifier is pool/name when the call ends, however the secondary
  step ends; and when a hypervisor is selected and the \<^verbatim>\<open>qemu-img\<close> command reports a
  fault or a non-empty standard error, the call returns a non-nil error with the
  identifier set.
\<close>

theorem rsRbdCreate_identity:
  fixes cfg env d log
  defines "pool \<equiv> attr_string d ''osd_pool''" and "name \<equiv> attr_string d ''img_name''"
    and "sz \<equiv> attr_string d ''img_size''"
  assumes hosts: "G_ceph_hosts cfg = h0 # hs"
    and primary: "f_ssh cfg env h0 (rbd_create_cmd pool name sz) log = ((out_buf, err_buf, fault), log1)"
  shows
    "(fault \<noteq> None \<or> err_buf \<noteq> [] \<longrightarrow>
        (\<exists>e. rsRbdCreate cfg env d log = (Return (Some e), d, log1)))
     \<and> (fault = None \<and> err_buf = [] \<longrightarrow>
        fst (snd (rsRbdCreate cfg env d log)) = SetId (pool @ ''/'' @ name) d \<and>
        Id (fst (snd (rsRbdCreate cfg env d log))) = pool @ ''/'' @ name)
     \<and> (\<forall>h log2 r2 log3.
          fault = None \<and> err_buf = [] \<and>
          f_getHypervisor cfg env 1 log1 = (Return h, log2) \<and> h \<noteq> [] \<and>
          f_ssh cfg env h (qemu_img_create_cmd cfg pool name sz) log2 = (r2, log3) \<and>
          probe_failed r2 \<longrightarrow>
          (\<exists>e. rsRbdCreate cfg env d log = (Return (Some e), SetId (pool @ ''/'' @ name) d, log3)))"
proof -
  have a: "fault \<noteq> None \<or> err_buf \<noteq> [] \<longrightarrow>
        (\<exists>e. rsRbdCreate cfg env d log = (Return (Some e), d, log1))"
    using hosts primary
    by (auto simp: rsRbdCreate_def Let_def pool_def name_def sz_def)
  have b: "fault = None \<and> err_buf = [] \<longrightarrow>
        fst (snd (rsRbdCreate cfg env d log)) = SetId (pool @ ''/'' @ name) d \<and>
        Id (fst (snd (rsRbdCreate cfg env d log))) = pool @ ''/'' @ name"
    using hosts primary
    by (auto simp: rsRbdCreate_def Let_def pool_def name_def sz_def SetId_def
             split: prod.splits go.splits)
  have c: "\<forall>h log2 r2 log3.
          fault = None \<and> err_buf = [] \<and>
          f_getHypervisor cfg env 1 log1 = (Return h, log2) \<and> h \<noteq> [] \<and>
          f_ssh cfg env h (qemu_img_create_cmd cfg pool name sz) log2 = (r2, log3) \<and>
          probe_failed r2 \<longrightarrow>
          (\<exists>e. rsRbdCreate cfg env d log = (Return (Some e), SetId (pool @ ''/'' @ name) d, log3))"
  proof (intro allI impI, elim conjE)
    fix h log2 r2 log3
    assume ok: "fault = None" "err_buf = []"
      and sel: "f_getHypervisor cfg env 1 log1 = (Return h, log2)" "h \<noteq> []"
      and sec: "f_ssh cfg env h (qemu_img_create_cmd cfg pool name sz) log2 = (r2, log3)"
      and bad: "probe_failed r2"
    obtain o2 e2 f2 where r2: "r2 = (o2, e2, f2)" by (cases r2)
    have len: "\<not> length h < 1" using sel(2) by (cases h) auto
    show "\<exists>e. rsRbdCreate cfg env d log = (Return (Some e), SetId (pool @ ''/'' @ name) d, log3)"
      using hosts primary ok sel(1) len sec bad unfolding r2
      by (auto simp: rsRbdCreate_def Let_def pool_def name_def sz_def)
  qed
  from a b c show ?thesis by blast
qed

theorem rsRbdCreate_identity_witness:
  "rsRbdCreate (cluster [''ceph1''] [''A'']) (script [complains [''rbd: create error'']])
       (image ''rbd'' ''helloImg'' ''6M'') []
     = (Return (Some ''rbd: create error''), image ''rbd'' ''helloImg'' ''6M'',
        [ssh_args (cluster [''ceph1''] [''A'']) ''ceph1'' (rbd_create_cmd ''rbd'' ''helloImg'' ''6M'')])
   \<and> Id (image ''rbd'' ''helloImg'' ''6M'') = []
   \<and> fst (rsRbdCreate (cluster [''ceph1''] [''A''])
       (script [prints [], prints [''MemAvailable:    2097152 kB''], complains [''qemu-img: error'']])
       (image ''rbd'' ''helloImg'' ''6M'') []) = Return (Some ''qemu-img: error'')
   \<and> Id (fst (snd (rsRbdCreate (cluster [''ceph1''] [''A''])
       (script [prints [], prints [''MemAvailable:    2097152 kB''], complains [''qemu-img: error'']])
       (image ''rbd'' ''helloImg'' ''6M'') []))) = ''rbd/helloImg''"
proof -
  let ?C = "cluster [''ceph1''] [''A'']"
  let ?E1 = "script [complains [''rbd: create error'']]"
  let ?E2 = "script [prints [], prints [''MemAvailable:    2097152 kB''], complains [''qemu-img: error'']]"
  let ?d = "image ''rbd'' ''helloImg'' ''6M''"
  let ?L1 = "[ssh_args ?C ''ceph1'' (rbd_create_cmd ''rbd'' ''helloImg'' ''6M'')]"
  let ?L2 = "?L1 @ [ssh_args ?C ''A'' meminfo_cmd]"
  let ?L3 = "?L2 @ [ssh_args ?C ''A'' (qemu_img_create_cmd ?C ''rbd'' ''helloImg'' ''6M'')]"
  have attrs: "attr_string ?d ''osd_pool'' = ''rbd''" "attr_string ?d ''img_name'' = ''helloImg''"
    "attr_string ?d ''img_size'' = ''6M''"
    by (simp_all add: image_def)
  have fresh: "Id ?d = []"
    by (simp add: image_def)
  have hosts: "G_ceph_hosts ?C = ''ceph1'' # []"
    by (simp add: cluster_def)
  have p1: "f_ssh ?C ?E1 ''ceph1'' (rbd_create_cmd ''rbd'' ''helloImg'' ''6M'') [] = (([], ''rbd: create error'', None), ?L1)"
    by code_simp
  have p2: "f_ssh ?C ?E2 ''ceph1'' (rbd_create_cmd ''rbd'' ''helloImg'' ''6M'') [] = (([], [], None), ?L1)"
    by code_simp
  have sel: "f_getHypervisor ?C ?E2 1 ?L1 = (Return ''A'', ?L2)"
    by code_simp
  have sec: "f_ssh ?C ?E2 ''A'' (qemu_img_create_cmd ?C ''rbd'' ''helloImg'' ''6M'') ?L2 = (([], ''qemu-img: error'', None), ?L3)"
    by code_simp
  note T1 = rsRbdCreate_identity[of ?C "''ceph1''" "[]" ?E1 ?d "[]", unfolded attrs, OF hosts p1]
  note T2 = rsRbdCreate_identity[of ?C "''ceph1''" "[]" ?E2 ?d "[]", unfolded attrs, OF hosts p2]
  from T1 obtain e where e: "rsRbdCreate ?C ?E1 ?d [] = (Return (Some e), ?d, ?L1)"
    by auto
  have "rsRbdCreate ?C ?E1 ?d [] = (Return (Some ''rbd: create error''), ?d, ?L1)"
    using hosts p1 by (simp add: rsRbdCreate_def attrs Let_def)
  with e have r1: "rsRbdCreate ?C ?E1 ?d [] = (Return (Some ''rbd: create error''), ?d, ?L1)" by simp
  from T2 have idset: "Id (fst (snd (rsRbdCreate ?C ?E2 ?d []))) = ''rbd'' @ ''/'' @ ''helloImg''"
    by blast
  from T2 have "\<forall>h log2 r2 log3.
          None = (None :: error option) \<and> ([] :: string) = [] \<and>
          f_getHypervisor ?C ?E2 1 ?L1 = (Return h, log2) \<and> h \<noteq> [] \<and>
          f_ssh ?C ?E2 h (qemu_img_create_cmd ?C ''rbd'' ''helloImg'' ''6M'') log2 = (r2, log3) \<and>
          probe_failed r2 \<longrightarrow>
          (\<exists>e. rsRbdCreate ?C ?E2 ?d [] = (Return (Some e), SetId (''rbd'' @ ''/'' @ ''helloImg'') ?d, log3))"
    by blast
  from this[rule_format, of "''A''" ?L2 "([], ''qemu-img: error'', None)" ?L3] sel sec
  obtain e2 where e2: "rsRbdCreate ?C ?E2 ?d [] = (Return (Some e2), SetId (''rbd'' @ ''/'' @ ''helloImg'') ?d, ?L3)"
    by auto
  have "fst (rsRbdCreate ?C ?E2 ?d []) = Return (Some ''qemu-img: error'')"
    using hosts p2 sel sec by (simp add: rsRbdCreate_def attrs Let_def)
  with r1 fresh idset show ?thesis by simp
qed

subsection \<open>Selecting a hypervisor\<close>

text \<open>One step of the scan, by the outcome of the probe of the host at hand.\<close>

lemma getHypervisor_loop_Cons:
  assumes "f_ssh cfg env v meminfo_cmd log = (r, log')"
  shows "getHypervisor_loop cfg env (v # vs) mx best log =
     (if probe_failed r then getHypervisor_loop cfg env vs mx best log'
      else case avail_kb r of
             None \<Rightarrow> (Panic ''index out of range [1] with length 1'', log')
           | Some kb \<Rightarrow>
               if kb > mx then getHypervisor_loop cfg env vs kb v log'
               else getHypervisor_loop cfg env vs mx best log')"
  using assms by (cases r) (auto simp: Let_def)

text \<open>Whatever the scan returns is either what it started with or a host it probed.\<close>

lemma getHypervisor_loop_selected:
  assumes "getHypervisor_loop cfg env hs mx best log = (Return (mx', best'), log')"
  shows "(mx' = mx \<and> best' = best) \<or>
         (\<exists>j < length hs. hs ! j = best' \<and> mx < mx' \<and>
            \<not> probe_failed (ssh_seq cfg env hs meminfo_cmd log ! j) \<and>
            avail_kb (ssh_seq cfg env hs meminfo_cmd log ! j) = Some mx')"
  using assms
proof (induction hs arbitrary: mx best log)
  case Nil
  then show ?case by simp
next
  case (Cons v vs)
  obtain r log0 where s: "f_ssh cfg env v meminfo_cmd log = (r, log0)"
    by (cases "f_ssh cfg env v meminfo_cmd log")
  note step = getHypervisor_loop_Cons[OF s, of vs mx best]
  note rs = ssh_seq_Cons[OF s, of vs]
  let ?rs' = "ssh_seq cfg env vs meminfo_cmd log0"
  have lift: "\<exists>j < length (v # vs). (v # vs) ! j = best' \<and> mx < mx' \<and>
            \<not> probe_failed ((r # ?rs') ! j) \<and> avail_kb ((r # ?rs') ! j) = Some mx'"
    if "\<exists>j < length vs. vs ! j = best' \<and> m < mx' \<and>
            \<not> probe_failed (?rs' ! j) \<and> avail_kb (?rs' ! j) = Some mx'" "mx \<le> m" for m
  proof -
    from that obtain j where "j < length vs" "vs ! j = best'" "m < mx'"
      "\<not> probe_failed (?rs' ! j)" "avail_kb (?rs' ! j) = Some mx'" by blast
    with that(2) show ?thesis by (intro exI[of _ "Suc j"]) simp
  qed
  show ?case
  proof (cases "probe_failed r")
    case True
    with step Cons.prems have "getHypervisor_loop cfg env vs mx best log0 = (Return (mx', best'), log')"
      by simp
    from Cons.IH[OF this] lift[of mx] show ?thesis unfolding rs by auto
  next
    case False
    show ?thesis
    proof (cases "avail_kb r")
      case None
      with False step Cons.prems show ?thesis by simp
    next
      case (Some kb)
      show ?thesis
      proof (cases "kb > mx")
        case True
        with False Some step Cons.prems
        have "getHypervisor_loop cfg env vs kb v log0 = (Return (mx', best'), log')" by simp
        from Cons.IH[OF this] consider "mx' = kb" "best' = v"
          | "\<exists>j < length vs. vs ! j = best' \<and> kb < mx' \<and>
            \<not> probe_failed (?rs' ! j) \<and> avail_kb (?rs' ! j) = Some mx'" by blast
        then show ?thesis
        proof cases
          case 1
          then have "\<exists>j < length (v # vs). (v # vs) ! j = best' \<and> mx < mx' \<and>
            \<not> probe_failed ((r # ?rs') ! j) \<and> avail_kb ((r # ?rs') ! j) = Some mx'"
            using True False Some by (intro exI[of _ 0]) simp
          then show ?thesis unfolding rs by blast
        next
          case 2
          from lift[OF 2] True show ?thesis unfolding rs by simp
        qed
      next
        case le: False
        with False Some step Cons.prems
        have "getHypervisor_loop cfg env vs mx best log0 = (Return (mx', best'), log')" by simp
        from Cons.IH[OF this] lift[of mx] show ?thesis unfolding rs by auto
      qed
    qed
  qed
qed

text \<open>When no successful probe reports enough memory, the scan ends below the requirement.\<close>

lemma getHypervisor_loop_insufficient:
  assumes "\<forall>r \<in> set (ssh_seq cfg env hs meminfo_cmd log).
             probe_failed r \<or> (\<exists>kb. avail_kb r = Some kb \<and> kb sdiv 1024 \<le> m)"
  shows "\<exists>mx' best' log'. getHypervisor_loop cfg env hs mx best log = (Return (mx', best'), log') \<and>
           ((mx' = mx \<and> best' = best) \<or> mx' sdiv 1024 \<le> m)"
  using assms
proof (induction hs arbitrary: mx best log)
  case Nil
  then show ?case by simp
next
  case (Cons v vs)
  obtain r log0 where s: "f_ssh cfg env v meminfo_cmd log = (r, log0)"
    by (cases "f_ssh cfg env v meminfo_cmd log")
  note step = getHypervisor_loop_Cons[OF s, of vs mx best]
  note rs = ssh_seq_Cons[OF s, of vs]
  from Cons.prems have r: "probe_failed r \<or> (\<exists>kb. avail_kb r = Some kb \<and> kb sdiv 1024 \<le> m)"
    and rest: "\<forall>r \<in> set (ssh_seq cfg env vs meminfo_cmd log0).
             probe_failed r \<or> (\<exists>kb. avail_kb r = Some kb \<and> kb sdiv 1024 \<le> m)"
    unfolding rs by simp_all
  show ?case
  proof (cases "probe_failed r")
    case True
    with step Cons.IH[OF rest, of mx best] show ?thesis by simp
  next
    case False
    with r obtain kb where kb: "avail_kb r = Some kb" "kb sdiv 1024 \<le> m" by blast
    show ?thesis
    proof (cases "kb > mx")
      case True
      with False kb step Cons.IH[OF rest, of kb v] show ?thesis by auto
    next
      case le: False
      with False kb step Cons.IH[OF rest, of mx best] show ?thesis by simp
    qed
  qed
qed

text \<open>
  C4. A non-empty host returned by \<^verbatim>\<open>f_getHypervisor\<close> is a configured host whose
  probe succeeded and reported an amount of memory that, divided by 1024 as Go divides,
  strictly exceeds the requirement. When every probe either fails or reports an amount
  that does not exceed the requirement, the empty string is returned. With A at 2048 MB,
  B at 4096 MB, C at 1024 MB and a requirement of 1500 MB the result is B.
\<close>

theorem f_getHypervisor_capacity:
  fixes cfg env m log
  defines "hs \<equiv> G_qemu_hosts cfg" and "rs \<equiv> mem_probes cfg env log"
  shows
    "(\<forall>h log'. f_getHypervisor cfg env m log = (Return h, log') \<and> h \<noteq> [] \<longrightarrow>
        (\<exists>j < length hs. hs ! j = h \<and> \<not> probe_failed (rs ! j) \<and>
           (\<exists>kb. avail_kb (rs ! j) = Some kb \<and> m < kb sdiv 1024)))
     \<and> ((\<forall>r \<in> set rs. probe_failed r \<or> (\<exists>kb. avail_kb r = Some kb \<and> kb sdiv 1024 \<le> m)) \<longrightarrow>
        fst (f_getHypervisor cfg env m log) = Return [])
     \<and> map avail_kb (mem_probes (cluster [''ceph1''] [''A'', ''B'', ''C''])
          (script [prints [''MemAvailable:    2097152 kB''], prints [''MemAvailable:    4194304 kB''],
                   prints [''MemAvailable:    1048576 kB'']]) [])
         = [Some (2048 * 1024), Some (4096 * 1024), Some (1024 * 1024)]
     \<and> fst (f_getHypervisor (cluster [''ceph1''] [''A'', ''B'', ''C''])
          (script [prints [''MemAvailable:    2097152 kB''], prints [''MemAvailable:    4194304 kB''],
                   prints [''MemAvailable:    1048576 kB'']]) 1500 [])
         = Return ''B''"
proof -
  have a: "\<forall>h log'. f_getHypervisor cfg env m log = (Return h, log') \<and> h \<noteq> [] \<longrightarrow>
        (\<exists>j < length hs. hs ! j = h \<and> \<not> probe_failed (rs ! j) \<and>
           (\<exists>kb. avail_kb (rs ! j) = Some kb \<and> m < kb sdiv 1024))"
  proof (intro allI impI, elim conjE)
    fix h log'
    assume res: "f_getHypervisor cfg env m log = (Return h, log')" and h: "h \<noteq> []"
    obtain g l where loop: "getHypervisor_loop cfg env hs 0 [] log = (g, l)"
      by (cases "getHypervisor_loop cfg env hs 0 [] log")
    with res obtain mx' best' where g: "g = Return (mx', best')"
      by (cases g) (auto simp: f_getHypervisor_def hs_def)
    from res loop g h have sel: "m < mx' sdiv 1024" "best' = h"
      by (auto simp: f_getHypervisor_def hs_def split: if_splits)
    from getHypervisor_loop_selected[OF loop[unfolded g]] h sel(2)
    have "\<exists>j < length hs. hs ! j = best' \<and> 0 < mx' \<and>
            \<not> probe_failed (rs ! j) \<and> avail_kb (rs ! j) = Some mx'"
      unfolding rs_def mem_probes_def hs_def by blast
    with sel show "\<exists>j < length hs. hs ! j = h \<and> \<not> probe_failed (rs ! j) \<and>
           (\<exists>kb. avail_kb (rs ! j) = Some kb \<and> m < kb sdiv 1024)"
      by auto
  qed
  have b: "(\<forall>r \<in> set rs. probe_failed r \<or> (\<exists>kb. avail_kb r = Some kb \<and> kb sdiv 1024 \<le> m)) \<longrightarrow>
        fst (f_getHypervisor cfg env m log) = Return []"
  proof
    assume "\<forall>r \<in> set rs. probe_failed r \<or> (\<exists>kb. avail_kb r = Some kb \<and> kb sdiv 1024 \<le> m)"
    from getHypervisor_loop_insufficient[OF this[unfolded rs_def mem_probes_def], of 0 "[]"]
    show "fst (f_getHypervisor cfg env m log) = Return []"
      by (auto simp: f_getHypervisor_def)
  qed
  have c: "map avail_kb (mem_probes (cluster [''ceph1''] [''A'', ''B'', ''C''])
          (script [prints [''MemAvailable:    2097152 kB''], prints [''MemAvailable:    4194304 kB''],
                   prints [''MemAvailable:    1048576 kB'']]) [])
         = [Some (2048 * 1024), Some (4096 * 1024), Some (1024 * 1024)]"
    by code_simp
  have d: "fst (f_getHypervisor (cluster [''ceph1''] [''A'', ''B'', ''C''])
          (script [prints [''MemAvailable:    2097152 kB''], prints [''MemAvailable:    4194304 kB''],
                   prints [''MemAvailable:    1048576 kB'']]) 1500 [])
         = Return ''B''"
    by code_simp
  from a b c d show ?thesis by blast
qed

theorem f_getHypervisor_capacity_witness:
  "f_getHypervisor (cluster [''ceph1''] [''A'', ''B'', ''C''])
      (script [prints [''MemAvailable:    2097152 kB''], exits_with ''exit status 255'',
               prints [''MemAvailable:    1048576 kB'']]) 1500 []
     = (Return ''A'', calls_to (cluster [''ceph1''] [''A'', ''B'', ''C'']) [''A'', ''B'', ''C''] meminfo_cmd)
   \<and> (\<exists>j < length [''A'', ''B'', ''C'']. [''A'', ''B'', ''C''] ! j = ''A'' \<and>
        (\<exists>kb. avail_kb (mem_probes (cluster [''ceph1''] [''A'', ''B'', ''C''])
                 (script [prints [''MemAvailable:    2097152 kB''], exits_with ''exit status 255'',
                          prints [''MemAvailable:    1048576 kB'']]) [] ! j) = Some kb \<and>
              1500 < kb sdiv 1024))
   \<and> mem_probes (cluster [''ceph1''] [''A'', ''B'', ''C''])
         (script [prints [''MemAvailable:    2097152 kB''], exits_with ''exit status 255'',
                  prints [''MemAvailable:    1048576 kB'']]) []
       = [(''MemAvailable:    2097152 kB'', [], None), ([], [], Some ''exit status 255''),
          (''MemAvailable:    1048576 kB'', [], None)]
   \<and> avail_kb (''MemAvailable:    2097152 kB'', [], None) = Some (2048 * 1024)
   \<and> avail_kb (''MemAvailable:    1048576 kB'', [], None) = Some (1024 * 1024)
   \<and> fst (f_getHypervisor (cluster [''ceph1''] [''A'', ''B'', ''C''])
      (script [prints [''MemAvailable:    2097152 kB''], exits_with ''exit status 255'',
               prints [''MemAvailable:    1048576 kB'']]) 2048 []) = Return []"
proof -
  let ?C = "cluster [''ceph1''] [''A'', ''B'', ''C'']"
  let ?E = "script [prints [''MemAvailable:    2097152 kB''], exits_with ''exit status 255'',
               prints [''MemAvailable:    1048576 kB'']]"
  have hs: "G_qemu_hosts ?C = [''A'', ''B'', ''C'']"
    by (simp add: cluster_def)
  have sel: "f_getHypervisor ?C ?E 1500 [] = (Return ''A'', calls_to ?C [''A'', ''B'', ''C''] meminfo_cmd)"
    by code_simp
  have rs: "mem_probes ?C ?E [] =
      [(''MemAvailable:    2097152 kB'', [], None), ([], [], Some ''exit status 255''),
       (''MemAvailable:    1048576 kB'', [], None)]"
    by code_simp
  have kb: "avail_kb (''MemAvailable:    2097152 kB'', [], None) = Some 2097152"
    "avail_kb (''MemAvailable:    1048576 kB'', [], None) = Some 1048576"
    by code_simp+
  have low: "\<forall>r \<in> set (mem_probes ?C ?E []).
         probe_failed r \<or> (\<exists>kb. avail_kb r = Some kb \<and> kb sdiv 1024 \<le> 2048)"
    unfolding rs using kb by (simp add: signed_divide_int_def)
  note T1 = f_getHypervisor_capacity[of ?C ?E 1500 "[]", unfolded hs]
  note T2 = f_getHypervisor_capacity[of ?C ?E 2048 "[]", unfolded hs]
  from T1 have "\<forall>h log'. f_getHypervisor ?C ?E 1500 [] = (Return h, log') \<and> h \<noteq> [] \<longrightarrow>
        (\<exists>j < length [''A'', ''B'', ''C''].  [''A'', ''B'', ''C''] ! j = h \<and> \<not> probe_failed (mem_probes ?C ?E [] ! j) \<and>
           (\<exists>kb. avail_kb (mem_probes ?C ?E [] ! j) = Some kb \<and> 1500 < kb sdiv 1024))"
    by (rule conjunct1)
  from this[rule_format, of "''A''" "calls_to ?C [''A'', ''B'', ''C''] meminfo_cmd"] sel
  have a: "\<exists>j < length [''A'', ''B'', ''C'']. [''A'', ''B'', ''C''] ! j = ''A'' \<and>
        (\<exists>kb. avail_kb (mem_probes ?C ?E [] ! j) = Some kb \<and> 1500 < kb sdiv 1024)"
    by blast
  from T2 low have b: "fst (f_getHypervisor ?C ?E 2048 []) = Return []"
    by blast
  from sel a rs kb b show ?thesis by simp
qed

text \<open>A scan over successful probes none of which exceeds the running maximum changes nothing.\<close>

lemma getHypervisor_loop_no_gain:
  assumes "\<forall>r \<in> set (ssh_seq cfg env hs meminfo_cmd log).
             \<not> probe_failed r \<and> (\<exists>kb. avail_kb r = Some kb \<and> kb \<le> mx)"
  shows "fst (getHypervisor_loop cfg env hs mx best log) = Return (mx, best)"
  using assms
proof (induction hs arbitrary: log)
  case Nil
  then show ?case by simp
next
  case (Cons v vs)
  obtain r log0 where s: "f_ssh cfg env v meminfo_cmd log = (r, log0)"
    by (cases "f_ssh cfg env v meminfo_cmd log")
  note step = getHypervisor_loop_Cons[OF s, of vs mx best]
  note rs = ssh_seq_Cons[OF s, of vs]
  from Cons.prems obtain kb where r: "\<not> probe_failed r" "avail_kb r = Some kb" "kb \<le> mx"
    and rest: "\<forall>r \<in> set (ssh_seq cfg env vs meminfo_cmd log0).
             \<not> probe_failed r \<and> (\<exists>kb. avail_kb r = Some kb \<and> kb \<le> mx)"
    unfolding rs by auto
  from step r Cons.IH[OF rest] show ?case by simp
qed

lemma getHypervisor_loop_first_max:
  assumes "\<forall>r \<in> set (ssh_seq cfg env hs meminfo_cmd log). \<not> probe_failed r"
    and "map avail_kb (ssh_seq cfg env hs meminfo_cmd log) = map Some kbs"
    and "j < length kbs"
    and "\<forall>i < length kbs. kbs ! i \<le> kbs ! j"
    and "\<forall>i < j. kbs ! i < kbs ! j"
  shows "fst (getHypervisor_loop cfg env hs mx best log) =
           Return (if mx < kbs ! j then (kbs ! j, hs ! j) else (mx, best))"
  using assms
proof (induction hs arbitrary: log kbs j mx best)
  case Nil
  then show ?case by simp
next
  case (Cons v vs)
  obtain r log0 where s: "f_ssh cfg env v meminfo_cmd log = (r, log0)"
    by (cases "f_ssh cfg env v meminfo_cmd log")
  note step = getHypervisor_loop_Cons[OF s, of vs mx best]
  note rs = ssh_seq_Cons[OF s, of vs]
  let ?rs' = "ssh_seq cfg env vs meminfo_cmd log0"
  from Cons.prems(2) obtain kb kbs' where kbs: "kbs = kb # kbs'"
    and r: "avail_kb r = Some kb" and rest: "map avail_kb ?rs' = map Some kbs'"
    unfolding rs by (cases kbs) auto
  from Cons.prems(1) have ok: "\<not> probe_failed r" and oks: "\<forall>r \<in> set ?rs'. \<not> probe_failed r"
    unfolding rs by simp_all
  have len: "length kbs' = length vs"
    using rest by (metis length_map length_ssh_seq)
  define mx1 where "mx1 = (if mx < kb then kb else mx)"
  define best1 where "best1 = (if mx < kb then v else best)"
  have step1: "getHypervisor_loop cfg env (v # vs) mx best log = getHypervisor_loop cfg env vs mx1 best1 log0"
    using step ok r by (simp add: mx1_def best1_def)
  show ?case
  proof (cases j)
    case 0
    have "\<forall>r \<in> set ?rs'. \<not> probe_failed r \<and> (\<exists>k. avail_kb r = Some k \<and> k \<le> mx1)"
    proof
      fix x assume x: "x \<in> set ?rs'"
      then obtain i where i: "i < length vs" "x = ?rs' ! i"
        by (metis in_set_conv_nth length_ssh_seq)
      have "avail_kb x = Some (kbs' ! i)"
        using rest i len by (metis length_map nth_map)
      moreover have "kbs' ! i \<le> kb"
        using Cons.prems(4)[rule_format, of "Suc i"] i len 0 kbs by simp
      ultimately show "\<not> probe_failed x \<and> (\<exists>k. avail_kb x = Some k \<and> k \<le> mx1)"
        using oks x by (auto simp: mx1_def)
    qed
    from getHypervisor_loop_no_gain[OF this, of best1] step1 0 kbs
    show ?thesis by (simp add: mx1_def best1_def)
  next
    case (Suc j')
    have j': "j' < length kbs'" using Cons.prems(3) Suc kbs by simp
    have mx': "\<forall>i < length kbs'. kbs' ! i \<le> kbs' ! j'"
      using Cons.prems(4) Suc kbs by auto
    have first': "\<forall>i < j'. kbs' ! i < kbs' ! j'"
      using Cons.prems(5) Suc kbs by auto
    have lt: "kb < kbs' ! j'"
      using Cons.prems(5)[rule_format, of 0] Suc kbs by simp
    from Cons.IH[OF oks rest j' mx' first', of mx1 best1] step1 Suc kbs lt
    show ?thesis by (auto simp: mx1_def best1_def)
  qed
qed

text \<open>
  C8. Let every probe succeed, host \<open>i\<close> reporting \<open>kbs ! i\<close> kB, and let \<open>j\<close> be the
  first host in configured order that reports the maximum. When the maximum is positive,
  the scan ends with host \<open>j\<close> as \<^verbatim>\<open>best_host\<close> (a host that reports no memory is
  never tracked, \<^verbatim>\<open>max_avail\<close> starting at 0), and \<^verbatim>\<open>f_getHypervisor\<close> returns host
  \<open>j\<close> whenever it returns a host at all, that is when the maximum also exceeds the
  requirement, and the empty string otherwise. At every step of the scan a successful
  probe reporting no more than \<^verbatim>\<open>max_avail\<close> leaves \<^verbatim>\<open>max_avail\<close> and
  \<^verbatim>\<open>best_host\<close> as they are: a later host with an equal value never replaces the
  current best host.
\<close>

theorem f_getHypervisor_first_max_wins:
  assumes "\<forall>r \<in> set (mem_probes cfg env log). \<not> probe_failed r"
    and "map avail_kb (mem_probes cfg env log) = map Some kbs"
    and "j < length kbs"
    and "\<forall>i < length kbs. kbs ! i \<le> kbs ! j"
    and "\<forall>i < j. kbs ! i < kbs ! j"
  shows
    "fst (getHypervisor_loop cfg env (G_qemu_hosts cfg) 0 [] log) =
       Return (if 0 < kbs ! j then (kbs ! j, G_qemu_hosts cfg ! j) else (0, []))
     \<and> fst (f_getHypervisor cfg env m log) =
       Return (if 0 < kbs ! j \<and> m < kbs ! j sdiv 1024 then G_qemu_hosts cfg ! j else [])
     \<and> (\<forall>v vs max_avail best_host r log' kb.
          f_ssh cfg env v meminfo_cmd log = (r, log') \<and>
          \<not> probe_failed r \<and> avail_kb r = Some kb \<and> kb \<le> max_avail \<longrightarrow>
          getHypervisor_loop cfg env (v # vs) max_avail best_host log =
            getHypervisor_loop cfg env vs max_avail best_host log')"
proof -
  have scan: "fst (getHypervisor_loop cfg env (G_qemu_hosts cfg) 0 [] log) =
       Return (if 0 < kbs ! j then (kbs ! j, G_qemu_hosts cfg ! j) else (0, []))"
    using getHypervisor_loop_first_max[OF assms(1)[unfolded mem_probes_def]
        assms(2)[unfolded mem_probes_def] assms(3-5), of 0 "[]"] .
  have sel: "fst (f_getHypervisor cfg env m log) =
       Return (if 0 < kbs ! j \<and> m < kbs ! j sdiv 1024 then G_qemu_hosts cfg ! j else [])"
    using scan
    by (cases "0 < kbs ! j") (auto simp: f_getHypervisor_def split: prod.splits go.splits)
  have keep: "\<forall>v vs max_avail best_host r log' kb.
          f_ssh cfg env v meminfo_cmd log = (r, log') \<and>
          \<not> probe_failed r \<and> avail_kb r = Some kb \<and> kb \<le> max_avail \<longrightarrow>
          getHypervisor_loop cfg env (v # vs) max_avail best_host log =
            getHypervisor_loop cfg env vs max_avail best_host log'"
    using getHypervisor_loop_Cons by auto
  from scan sel keep show ?thesis by blast
qed

theorem f_getHypervisor_first_max_wins_witness:
  "map probe_failed (mem_probes (cluster [''ceph1''] [''A'', ''B'', ''C''])
        (script [prints [''MemAvailable:    1048576 kB''], prints [''MemAvailable:    4194304 kB''],
                 prints [''MemAvailable:    4194304 kB'']]) [])
       = [False, False, False]
   \<and> map avail_kb (mem_probes (cluster [''ceph1''] [''A'', ''B'', ''C''])
        (script [prints [''MemAvailable:    1048576 kB''], prints [''MemAvailable:    4194304 kB''],
                 prints [''MemAvailable:    4194304 kB'']]) [])
       = map Some [1048576, 4194304, 4194304]
   \<and> fst (f_getHypervisor (cluster [''ceph1''] [''A'', ''B'', ''C''])
        (script [prints [''MemAvailable:    1048576 kB''], prints [''MemAvailable:    4194304 kB''],
                 prints [''MemAvailable:    4194304 kB'']]) 1500 []) = Return ''B''"
proof -
  let ?C = "cluster [''ceph1''] [''A'', ''B'', ''C'']"
  let ?E = "script [prints [''MemAvailable:    1048576 kB''], prints [''MemAvailable:    4194304 kB''],
                 prints [''MemAvailable:    4194304 kB'']]"
  let ?kbs = "[1048576, 4194304, 4194304 :: int]"
  have oks: "map probe_failed (mem_probes ?C ?E []) = [False, False, False]"
    by code_simp
  have ok: "\<forall>r \<in> set (mem_probes ?C ?E []). \<not> probe_failed r"
  proof
    fix r assume "r \<in> set (mem_probes ?C ?E [])"
    then have "probe_failed r \<in> set (map probe_failed (mem_probes ?C ?E []))"
      by simp
    then show "\<not> probe_failed r" unfolding oks by simp
  qed
  have kbs: "map avail_kb (mem_probes ?C ?E []) = map Some ?kbs"
    by code_simp
  have j: "(1::nat) < length ?kbs" by simp
  have mx: "\<forall>i < length ?kbs. ?kbs ! i \<le> ?kbs ! 1"
    by (simp add: nth_Cons' less_Suc_eq numeral_3_eq_3)
  have first: "\<forall>i < (1::nat). ?kbs ! i < ?kbs ! 1"
    by simp
  have hs: "G_qemu_hosts ?C ! 1 = ''B''"
    by (simp add: cluster_def)
  from f_getHypervisor_first_max_wins[OF ok kbs j mx first, of 1500]
  have "fst (f_getHypervisor ?C ?E 1500 []) =
          Return (if 0 < ?kbs ! 1 \<and> 1500 < ?kbs ! 1 sdiv 1024 then G_qemu_hosts ?C ! 1 else [])"
    by (rule conjunct1[OF conjunct2])
  then have "fst (f_getHypervisor ?C ?E 1500 []) = Return ''B''"
    unfolding hs by (simp add: signed_divide_int_def)
  with oks kbs show ?thesis by blast
qed

end
